theory Spec2Isabelle
  imports Main "HOL-Library.Sublist"
begin

section \<open>Strings\<close>

text \<open>
  Go strings are byte sequences; \<open>string\<close> is a list of bytes as well.
  \<open>strings.Contains(s, substr)\<close> holds when \<open>substr\<close> occurs in \<open>s\<close> as a contiguous
  block, which is \<open>sublist substr s\<close>; the empty string occurs in every string.
\<close>

definition strings_Contains :: "string \<Rightarrow> string \<Rightarrow> bool" where
  "strings_Contains s substr = sublist substr s"

definition strings_HasPrefix :: "string \<Rightarrow> string \<Rightarrow> bool" where
  "strings_HasPrefix s p = prefix p s"

definition strings_TrimPrefix :: "string \<Rightarrow> string \<Rightarrow> string" where
  "strings_TrimPrefix s p = (if strings_HasPrefix s p then drop (length p) s else s)"

text \<open>
  \<open>strings.Split(s, sep)\<close> for a separator of one byte, the only way the program calls
  it (\<open>":"\<close>): the pieces between the occurrences of the separator, never an empty list.
\<close>

fun strings_Split :: "string \<Rightarrow> char \<Rightarrow> string list" where
  "strings_Split [] sep = [[]]"
| "strings_Split (c # s) sep =
     (if c = sep then [] # strings_Split s sep
      else (case strings_Split s sep of
              [] \<Rightarrow> [[c]]
            | p # ps \<Rightarrow> (c # p) # ps))"

section \<open>The container runtime and the notification sink\<close>

text \<open>A Go \<open>error\<close> value: \<open>None\<close> is \<open>nil\<close>, \<open>Some m\<close> an error that prints as \<open>m\<close>.\<close>

type_synonym err = "string option"

text \<open>\<open>types.Container\<close>, the fields the program reads.\<close>

record Container =
  c_ID :: string
  c_Names :: "string list"
  c_Image :: string
  c_ImageID :: string

text \<open>\<open>types.ImageInspect\<close>, the fields the program reads.\<close>

record ImageInspect =
  img_ID :: string
  img_RepoTags :: "string list"
  img_Created :: string
  img_Os :: string
  img_Architecture :: string

text \<open>\<open>types.AuthConfig\<close>; the zero value has three empty strings.\<close>

record AuthConfig =
  auth_Username :: string
  auth_Password :: string
  auth_ServerAddress :: string

text \<open>
  The \<open>RegistryAuth\<close> field of \<open>types.ImagePullOptions\<close>. \<open>encodeAuth\<close> is the
  base64 text of the JSON of an \<open>AuthConfig\<close>, which determines the \<open>AuthConfig\<close> and is
  never the empty string; it is kept symbolic as \<open>EncodedAuth\<close>. \<open>NoAuth\<close> is the empty
  string of a field that was never set.
\<close>

datatype RegistryAuth = NoAuth | EncodedAuth AuthConfig

definition encodeAuth :: "AuthConfig \<Rightarrow> RegistryAuth" where
  "encodeAuth auth = EncodedAuth auth"

record ImagePullOptions =
  opt_RegistryAuth :: RegistryAuth
  opt_Platform :: string

text \<open>
  One read of the JSON decoder on a pull response: a decoded progress message with its
  \<open>status\<close> and \<open>error\<close> fields, or bytes that do not decode. The end of the list is
  \<open>io.EOF\<close>.
\<close>

datatype pull_item = Decoded (ps_Status: string) (ps_Error: string) | Malformed

text \<open>
  \<open>container.Config\<close>, \<open>container.HostConfig\<close> and \<open>network.EndpointSettings\<close>: the
  program passes them on whole, so a few representative fields stand for all of them.
  The inspection result of the runtime always carries the three parts (the Go pointers
  are not nil).
\<close>

record Config =
  cfg_Image :: string
  cfg_Env :: "string list"
  cfg_Cmd :: "string list"
  cfg_Labels :: "(string \<times> string) list"

record HostConfig =
  hc_Binds :: "string list"
  hc_Mounts :: "(string \<times> string) list"
  hc_RestartPolicy :: string

record EndpointSettings =
  ep_NetworkID :: string
  ep_IPAddress :: string
  ep_Aliases :: "string list"

record ContainerJSON =
  cj_Config :: Config
  cj_HostConfig :: HostConfig
  cj_Networks :: "(string \<times> EndpointSettings) list"

text \<open>
  Every request the program sends, to the container runtime or to the notification URL,
  with its arguments. The state of a run is the list of the requests sent so far, oldest
  first.
\<close>

datatype request =
    Call_ContainerList bool "string option"
  | Call_ImageInspectWithRaw string
  | Call_ImagePull string ImagePullOptions
  | Call_ImageTag string string
  | Call_ImageRemove string bool bool
  | Call_ImagesPrune
  | Call_ContainerInspect string
  | Call_ContainerStop string nat
  | Call_ContainerRemove string
  | Call_ContainerCreate Config HostConfig "(string \<times> EndpointSettings) list" string
  | Call_ContainerStart string
  | Call_ContainerRestart string nat
  | Call_HttpPost string string

type_synonym history = "request list"

text \<open>
  The runtime client. What a call answers may depend on everything that was requested
  before, so each method takes the history first. A call that returns a value and an
  error answers \<open>Inl\<close> the error or \<open>Inr\<close> the value; \<open>ImageInspectWithRaw\<close> answers
  both, since the program reads the image of a failed inspection. The removal of an
  image and the prune return more than an error, which the program only logs.
\<close>

record client =
  ContainerList :: "history \<Rightarrow> bool \<Rightarrow> string option \<Rightarrow> string + Container list"
  ImageInspectWithRaw :: "history \<Rightarrow> string \<Rightarrow> ImageInspect \<times> err"
  ImagePull :: "history \<Rightarrow> string \<Rightarrow> ImagePullOptions \<Rightarrow> string + pull_item list"
  ImageTag :: "history \<Rightarrow> string \<Rightarrow> string \<Rightarrow> err"
  ImageRemove :: "history \<Rightarrow> string \<Rightarrow> err"
  ImagesPrune :: "history \<Rightarrow> err"
  ContainerInspect :: "history \<Rightarrow> string \<Rightarrow> string + ContainerJSON"
  ContainerStop :: "history \<Rightarrow> string \<Rightarrow> err"
  ContainerRemove :: "history \<Rightarrow> string \<Rightarrow> err"
  ContainerCreate ::
    "history \<Rightarrow> Config \<Rightarrow> HostConfig \<Rightarrow> (string \<times> EndpointSettings) list \<Rightarrow> string
       \<Rightarrow> string + string"
  ContainerStart :: "history \<Rightarrow> string \<Rightarrow> err"
  ContainerRestart :: "history \<Rightarrow> string \<Rightarrow> err"

text \<open>
  \<open>notify\<close>: nothing is sent to an empty URL; otherwise one POST, whose answer only
  decides what is logged.
\<close>

definition notify :: "string \<Rightarrow> string \<Rightarrow> history \<Rightarrow> history" where
  "notify url message h = (if url = [] then h else h @ [Call_HttpPost url message])"

section \<open>The update detector of \<open>README.md\<close>\<close>

text \<open>
  \<open>time.Parse(time.RFC3339Nano, s)\<close> belongs to the Go library, not to the program: it
  is the parameter \<open>parse\<close>, answering the instant (in nanoseconds) or \<open>None\<close> for a
  parse error. \<open>Time.After\<close> is \<open><\<close> on instants.

  \<open>pullImageAndCheckUpdate\<close> returns \<open>(false, err)\<close> as \<open>Inl\<close> the message and
  \<open>(b, nil)\<close> as \<open>Inr b\<close>, with the history after its requests. The response of the pull
  is read to its end and discarded. \<open>pullOptions\<close> is its variable \<open>opts\<close>: the
  credential is encoded only when both the user and the password are set.
\<close>

definition pullOptions :: "AuthConfig \<Rightarrow> string \<Rightarrow> ImagePullOptions" where
  "pullOptions authConfig platform =
     \<lparr>opt_RegistryAuth =
        (if auth_Username authConfig \<noteq> [] \<and> auth_Password authConfig \<noteq> []
         then encodeAuth authConfig else NoAuth),
      opt_Platform = platform\<rparr>"

definition pullImageAndCheckUpdate ::
  "(string \<Rightarrow> int option) \<Rightarrow> client \<Rightarrow> string \<Rightarrow> AuthConfig \<Rightarrow> string \<Rightarrow> string \<Rightarrow> string
     \<Rightarrow> string \<Rightarrow> history \<Rightarrow> (string + bool) \<times> history" where
  "pullImageAndCheckUpdate parse cli img authConfig platform name notificationURL
       currentImgID h =
     (let opts = pullOptions authConfig platform;
          h1 = h @ [Call_ImagePull img opts]
      in case ImagePull cli h img opts of
           Inl e \<Rightarrow> (Inl (''error pulling image: '' @ e), h1)
         | Inr resp \<Rightarrow>
            (let h2 = h1 @ [Call_ImageInspectWithRaw img]
             in case ImageInspectWithRaw cli h1 img of
                  (newImg, Some e) \<Rightarrow> (Inl (''inspect pulled image: '' @ e), h2)
                | (newImg, None) \<Rightarrow>
                   (let localImg = fst (ImageInspectWithRaw cli h2 currentImgID);
                        h3 = h2 @ [Call_ImageInspectWithRaw currentImgID]
                    in if img_ID newImg \<noteq> currentImgID
                          \<and> img_Created localImg \<noteq> [] \<and> img_Created newImg \<noteq> []
                       then (case (parse (img_Created localImg), parse (img_Created newImg)) of
                               (Some localTime, Some remoteTime) \<Rightarrow>
                                 (Inr (localTime < remoteTime), h3)
                             | _ \<Rightarrow> (Inr False, h3))
                       else (Inr False, h3))))"

section \<open>The reconciliation of \<open>README.md\<close>\<close>

text \<open>
  \<open>recreateContainer\<close>: inspect, stop with a timeout of 10 seconds, remove, create from
  the inspected configuration under the given name, start. The result is the returned
  error (\<open>None\<close> for \<open>nil\<close>) and the history.
\<close>

definition recreateContainer ::
  "client \<Rightarrow> string \<Rightarrow> string \<Rightarrow> string \<Rightarrow> history \<Rightarrow> err \<times> history" where
  "recreateContainer cli containerID name notificationURL h =
     (let h1 = h @ [Call_ContainerInspect containerID]
      in case ContainerInspect cli h containerID of
           Inl e \<Rightarrow> (Some (''inspect failed: '' @ e), h1)
         | Inr inspect \<Rightarrow>
            (let timeout = 10;
                 h2 = h1 @ [Call_ContainerStop containerID timeout]
             in case ContainerStop cli h1 containerID of
                  Some e \<Rightarrow> (Some (''stop failed: '' @ e), h2)
                | None \<Rightarrow>
                   (let h3 = h2 @ [Call_ContainerRemove containerID]
                    in case ContainerRemove cli h2 containerID of
                         Some e \<Rightarrow> (Some (''remove failed: '' @ e), h3)
                       | None \<Rightarrow>
                          (let h4 = h3 @ [Call_ContainerCreate (cj_Config inspect)
                                            (cj_HostConfig inspect) (cj_Networks inspect) name]
                           in case ContainerCreate cli h3 (cj_Config inspect)
                                     (cj_HostConfig inspect) (cj_Networks inspect) name of
                                Inl e \<Rightarrow> (Some (''create failed: '' @ e), h4)
                              | Inr respID \<Rightarrow>
                                 (let h5 = h4 @ [Call_ContainerStart respID]
                                  in case ContainerStart cli h4 respID of
                                       Some e \<Rightarrow> (Some (''start failed: '' @ e), h5)
                                     | None \<Rightarrow> (None, h5))))))"

text \<open>The command-line flags the tick reads.\<close>

record flags =
  cleanup :: bool
  labelEnable :: bool

definition enableLabel :: string where
  "enableLabel = ''puller.update.enable''"

text \<open>
  The resolution of a reference in content-address form, which \<open>checkContainers\<close> writes
  out twice (in the counting loop and in the main loop): a reference that starts with
  \<open>sha256:\<close> is replaced by the first repository tag of the inspected image, when the
  inspection succeeds and there is one.
\<close>

definition resolveDigest :: "client \<Rightarrow> Container \<Rightarrow> history \<Rightarrow> string \<times> history" where
  "resolveDigest cli c h =
     (if strings_HasPrefix (c_Image c) ''sha256:''
      then (case ImageInspectWithRaw cli h (c_ImageID c) of
              (imgInspect, e) \<Rightarrow>
                (if e = None \<and> length (img_RepoTags imgInspect) > 0
                 then hd (img_RepoTags imgInspect) else c_Image c,
                 h @ [Call_ImageInspectWithRaw (c_ImageID c)]))
      else (c_Image c, h))"

text \<open>The first loop of \<open>checkContainers\<close>, which counts the eligible containers.\<close>

fun eligibleContainers ::
  "client \<Rightarrow> string \<Rightarrow> string \<Rightarrow> Container list \<Rightarrow> nat \<Rightarrow> history \<Rightarrow> nat \<times> history" where
  "eligibleContainers cli registryURL user [] n h = (n, h)"
| "eligibleContainers cli registryURL user (c # cs) n h =
     (case resolveDigest cli c h of
        (imageName, h1) \<Rightarrow>
          eligibleContainers cli registryURL user cs
            (if strings_Contains imageName registryURL \<or> strings_Contains imageName user
             then n + 1 else n) h1)"

text \<open>The update plan: \<open>tagsToCheck\<close> and, for each tag, \<open>imageWithTag\<close>.\<close>

definition tagsToCheck :: "string \<Rightarrow> string list" where
  "tagsToCheck registryTag =
     (if registryTag \<noteq> [] then [''latest''] @ [registryTag] else [''latest''])"

definition imageWithTag :: "string \<Rightarrow> string \<Rightarrow> string" where
  "imageWithTag img tag =
     (if \<not> strings_Contains img '':'' then img @ '':'' @ tag
      else hd (strings_Split img CHR '':'') @ '':'' @ tag)"

text \<open>
  The bookkeeping after an update was found on \<open>tag\<close>: when \<open>tag\<close> is the configured
  \<open>registryTag\<close>, the pulled reference is tagged as \<open>latest\<close> and, if that succeeded,
  removed (forced, with its children). Both failures are only logged.
\<close>

definition retagAsLatest :: "client \<Rightarrow> string \<Rightarrow> string \<Rightarrow> string \<Rightarrow> history \<Rightarrow> history" where
  "retagAsLatest cli registryTag tag imgWithTag h =
     (if registryTag \<noteq> [] \<and> tag = registryTag
      then (let baseRepo = hd (strings_Split imgWithTag CHR '':'');
                h1 = h @ [Call_ImageTag imgWithTag (baseRepo @ '':latest'')]
            in case ImageTag cli h imgWithTag (baseRepo @ '':latest'') of
                 Some e \<Rightarrow> h1
               | None \<Rightarrow> h1 @ [Call_ImageRemove imgWithTag True True])
      else h)"

text \<open>
  The loop over \<open>tagsToCheck\<close>: the value of \<open>needsUpdate\<close> after it, and the history.
  A pull that returns an error moves on to the next tag; the first tag with an update
  ends the loop.
\<close>

fun tagsLoop ::
  "(string \<Rightarrow> int option) \<Rightarrow> client \<Rightarrow> string \<Rightarrow> string \<Rightarrow> AuthConfig \<Rightarrow> string \<Rightarrow> string
     \<Rightarrow> string \<Rightarrow> string \<Rightarrow> string list \<Rightarrow> history \<Rightarrow> bool \<times> history" where
  "tagsLoop parse cli registryTag img authConfig platform name notificationURL
       currentImgID [] h = (False, h)"
| "tagsLoop parse cli registryTag img authConfig platform name notificationURL
       currentImgID (tag # tags) h =
     (case pullImageAndCheckUpdate parse cli (imageWithTag img tag) authConfig platform
             name notificationURL currentImgID h of
        (Inl e, h1) \<Rightarrow>
          tagsLoop parse cli registryTag img authConfig platform name notificationURL
            currentImgID tags h1
      | (Inr updated, h1) \<Rightarrow>
          (if updated
           then (True, retagAsLatest cli registryTag tag (imageWithTag img tag) h1)
           else tagsLoop parse cli registryTag img authConfig platform name
                  notificationURL currentImgID tags h1))"

text \<open>
  The prune after an updated container: one request, and a notification when it fails.
\<close>

definition pruneImages :: "client \<Rightarrow> string \<Rightarrow> history \<Rightarrow> history" where
  "pruneImages cli notificationURL h =
     (case ImagesPrune cli h of
        Some e \<Rightarrow> notify notificationURL (''Error pruning old images: '' @ e)
                    (h @ [Call_ImagesPrune])
      | None \<Rightarrow> h @ [Call_ImagesPrune])"

text \<open>
  How a run of Go code ends: \<open>c.Names[0]\<close> panics on a container without names.
\<close>

datatype 'a outcome = Panic | Return 'a

text \<open>
  The main loop of \<open>checkContainers\<close> over the listed containers. \<open>containerBody\<close>
  is one iteration: it ends in \<open>Panic\<close>, or in \<open>Return\<close> where the source reaches a
  \<open>continue\<close> or the end of the body, with the counter \<open>updatedContainers\<close> and the
  history at that point. \<open>containersLoop\<close> runs the iterations in the order of the
  list.
\<close>

definition containerBody ::
  "(string \<Rightarrow> int option) \<Rightarrow> client \<Rightarrow> flags \<Rightarrow> string \<Rightarrow> AuthConfig \<Rightarrow> string
     \<Rightarrow> Container \<Rightarrow> nat \<Rightarrow> history \<Rightarrow> unit outcome \<times> nat \<times> history" where
  "containerBody parse cli fl registryTag authConfig notificationURL c updatedContainers h =
     (case c_Names c of
        [] \<Rightarrow> (Panic, updatedContainers, h)
      | name0 # _ \<Rightarrow>
         (let name = strings_TrimPrefix name0 ''/''
          in case resolveDigest cli c h of
               (img, h1) \<Rightarrow>
                 (let h2 = h1 @ [Call_ImageInspectWithRaw (c_ImageID c)]
                  in case ImageInspectWithRaw cli h1 (c_ImageID c) of
                       (imgInspect, Some e) \<Rightarrow> (Return (), updatedContainers, h2)
                     | (imgInspect, None) \<Rightarrow>
                        (let platform = img_Os imgInspect @ ''/'' @ img_Architecture imgInspect
                         in case tagsLoop parse cli registryTag img authConfig platform name
                                   notificationURL (c_ImageID c) (tagsToCheck registryTag) h2 of
                              (needsUpdate, h3) \<Rightarrow>
                                (if \<not> needsUpdate then (Return (), updatedContainers, h3)
                                 else (case recreateContainer cli (c_ID c) name
                                              notificationURL h3 of
                                         (Some e, h4) \<Rightarrow> (Return (), updatedContainers, h4)
                                       | (None, h4) \<Rightarrow>
                                          (let h5 = notify notificationURL
                                                      (''Successfully updated '' @ name) h4;
                                               h6 = (if cleanup fl
                                                     then pruneImages cli notificationURL h5
                                                     else h5)
                                           in (Return (), updatedContainers + 1, h6))))))))"

fun containersLoop ::
  "(string \<Rightarrow> int option) \<Rightarrow> client \<Rightarrow> flags \<Rightarrow> string \<Rightarrow> AuthConfig \<Rightarrow> string
     \<Rightarrow> Container list \<Rightarrow> nat \<Rightarrow> history \<Rightarrow> unit outcome \<times> nat \<times> history" where
  "containersLoop parse cli fl registryTag authConfig notificationURL [] updatedContainers h =
     (Return (), updatedContainers, h)"
| "containersLoop parse cli fl registryTag authConfig notificationURL (c # cs)
       updatedContainers h =
     (case containerBody parse cli fl registryTag authConfig notificationURL c
             updatedContainers h of
        (Panic, updatedContainers', h') \<Rightarrow> (Panic, updatedContainers', h')
      | (Return u, updatedContainers', h') \<Rightarrow>
          containersLoop parse cli fl registryTag authConfig notificationURL cs
            updatedContainers' h')"

text \<open>
  The credential of the pulls: the triple when both the user and the password are set
  (with the index address for the default registry), the zero value otherwise.
\<close>

definition authConfigOf :: "string \<Rightarrow> string \<Rightarrow> string \<Rightarrow> AuthConfig" where
  "authConfigOf registryURL user pass =
     (if user \<noteq> [] \<and> pass \<noteq> []
      then \<lparr>auth_Username = user, auth_Password = pass,
            auth_ServerAddress =
              (if registryURL = [] \<or> registryURL = ''docker.io''
                  \<or> registryURL = ''https://docker.io''
               then ''https://index.docker.io/v1/'' else registryURL)\<rparr>
      else \<lparr>auth_Username = [], auth_Password = [], auth_ServerAddress = []\<rparr>)"

text \<open>
  \<open>checkContainers\<close>: the returned error (or the panic), the value of
  \<open>updatedContainers\<close> that its summary reports, and the history. The listing asks for
  all containers, filtered by the label \<open>puller.update.enable=true\<close> when \<open>labelEnable\<close>
  is set.
\<close>

definition checkContainers ::
  "(string \<Rightarrow> int option) \<Rightarrow> client \<Rightarrow> flags \<Rightarrow> string \<Rightarrow> string \<Rightarrow> string \<Rightarrow> string
     \<Rightarrow> string \<Rightarrow> history \<Rightarrow> err outcome \<times> nat \<times> history" where
  "checkContainers parse cli fl registryURL user pass registryTag notificationURL h =
     (let filt = (if labelEnable fl then Some (enableLabel @ ''=true'') else None);
          h1 = h @ [Call_ContainerList True filt]
      in case ContainerList cli h True filt of
           Inl e \<Rightarrow> (Return (Some (''error listing containers: '' @ e)), 0, h1)
         | Inr containers \<Rightarrow>
            (case eligibleContainers cli registryURL user containers 0 h1 of
               (eligible, h2) \<Rightarrow>
                 (if eligible = 0 then (Return None, 0, h2)
                  else (case containersLoop parse cli fl registryTag
                               (authConfigOf registryURL user pass) notificationURL
                               containers 0 h2 of
                          (Panic, updatedContainers, h3) \<Rightarrow> (Panic, updatedContainers, h3)
                        | (Return u, updatedContainers, h3) \<Rightarrow>
                            (Return None, updatedContainers, h3)))))"

text \<open>
  \<open>main\<close> up to a given number of ticks of the ticker (the loop over the ticker never
  ends by itself): the environment, the result of creating the client, then the
  immediate check and one check for each tick. An error of a check is notified and the
  loop goes on; a panic ends the process.
\<close>

datatype run = Fatal string | Panicked history | Running history

fun ticksLoop ::
  "(string \<Rightarrow> int option) \<Rightarrow> client \<Rightarrow> flags \<Rightarrow> string \<Rightarrow> string \<Rightarrow> string \<Rightarrow> string
     \<Rightarrow> string \<Rightarrow> nat \<Rightarrow> history \<Rightarrow> run" where
  "ticksLoop parse cli fl registryURL registryUser registryPass registryTag notificationURL
       0 h = Running h"
| "ticksLoop parse cli fl registryURL registryUser registryPass registryTag notificationURL
       (Suc ticks) h =
     (case checkContainers parse cli fl registryURL registryUser registryPass registryTag
             notificationURL h of
        (Panic, u, h1) \<Rightarrow> Panicked h1
      | (Return (Some e), u, h1) \<Rightarrow>
          ticksLoop parse cli fl registryURL registryUser registryPass registryTag
            notificationURL ticks
            (notify notificationURL (''Error in check cycle: '' @ e) h1)
      | (Return None, u, h1) \<Rightarrow>
          ticksLoop parse cli fl registryURL registryUser registryPass registryTag
            notificationURL ticks h1)"

definition main ::
  "(string \<Rightarrow> int option) \<Rightarrow> (string \<Rightarrow> string) \<Rightarrow> string + client \<Rightarrow> flags \<Rightarrow> nat \<Rightarrow> run" where
  "main parse getenv newClient fl ticks =
     (let registryUser = getenv ''REGISTRY_USERNAME'';
          registryPass = getenv ''REGISTRY_PASSWORD'';
          registryURL = getenv ''REGISTRY_URL'';
          registryTag = getenv ''REGISTRY_TAG'';
          notificationURL = getenv ''NOTIFICATION_URL''
      in case newClient of
           Inl e \<Rightarrow> Fatal (''Error creating Docker client: '' @ e)
         | Inr cli \<Rightarrow>
            (case checkContainers parse cli fl registryURL registryUser registryPass
                    registryTag notificationURL [] of
               (Panic, u, h1) \<Rightarrow> Panicked h1
             | (Return (Some e), u, h1) \<Rightarrow>
                 ticksLoop parse cli fl registryURL registryUser registryPass registryTag
                   notificationURL ticks
                   (notify notificationURL (''Error in initial check: '' @ e) h1)
             | (Return None, u, h1) \<Rightarrow>
                 ticksLoop parse cli fl registryURL registryUser registryPass registryTag
                   notificationURL ticks h1))"

section \<open>The program of \<open>main.go\<close>\<close>

text \<open>
  \<open>main.go\<close> holds another \<open>main\<close>, \<open>checkContainers\<close> and
  \<open>pullImageAndCheckUpdate\<close>; their models carry the suffix \<open>_main_go\<close>.

  The \<open>for\<close> loop of \<open>pullImageAndCheckUpdate\<close> reads the pull response item by item.
  An error item that contains \<open>no matching manifest\<close> closes the response, pulls again
  for \<open>linux/amd64\<close> and goes on reading the new response; nothing bounds how often
  that happens, so the loop takes fuel: one unit for each fallback pull, and \<open>None\<close>
  when the fuel does not suffice.
\<close>

function pullLoop_main_go ::
  "client \<Rightarrow> nat \<Rightarrow> string \<Rightarrow> AuthConfig \<Rightarrow> pull_item list \<Rightarrow> bool \<Rightarrow> history
     \<Rightarrow> ((string + bool) \<times> history) option" where
  "pullLoop_main_go cli fuel img authConfig [] needsUpdate h = Some (Inr needsUpdate, h)"
| "pullLoop_main_go cli fuel img authConfig (Malformed # resp) needsUpdate h =
     Some (Inr needsUpdate, h)"
| "pullLoop_main_go cli fuel img authConfig (Decoded status error # resp) needsUpdate h =
     (if error \<noteq> []
      then (if strings_Contains error ''no matching manifest''
            then (case fuel of
                    0 \<Rightarrow> None
                  | Suc fuel' \<Rightarrow>
                     (let opts = \<lparr>opt_RegistryAuth = encodeAuth authConfig,
                                  opt_Platform = ''linux/amd64''\<rparr>;
                          h1 = h @ [Call_ImagePull img opts]
                      in case ImagePull cli h img opts of
                           Inl e \<Rightarrow> Some (Inl (''error pulling image (fallback): '' @ e), h1)
                         | Inr resp' \<Rightarrow>
                             pullLoop_main_go cli fuel' img authConfig resp' needsUpdate h1))
            else pullLoop_main_go cli fuel img authConfig resp needsUpdate h)
      else if strings_Contains status ''Downloaded newer image''
           then pullLoop_main_go cli fuel img authConfig resp True h
           else pullLoop_main_go cli fuel img authConfig resp needsUpdate h)"
  by pat_completeness auto
termination
  by (relation "measures [\<lambda>(cli, fuel, img, authConfig, resp, needsUpdate, h). fuel,
                          \<lambda>(cli, fuel, img, authConfig, resp, needsUpdate, h). length resp]")
     auto

definition pullImageAndCheckUpdate_main_go ::
  "client \<Rightarrow> nat \<Rightarrow> string \<Rightarrow> AuthConfig \<Rightarrow> string \<Rightarrow> string \<Rightarrow> string \<Rightarrow> history
     \<Rightarrow> ((string + bool) \<times> history) option" where
  "pullImageAndCheckUpdate_main_go cli fuel img authConfig platform name notificationURL h =
     (let opts = \<lparr>opt_RegistryAuth = encodeAuth authConfig, opt_Platform = platform\<rparr>;
          h1 = h @ [Call_ImagePull img opts]
      in case ImagePull cli h img opts of
           Inl e \<Rightarrow> Some (Inl (''error pulling image: '' @ e), h1)
         | Inr resp \<Rightarrow> pullLoop_main_go cli fuel img authConfig resp False h1)"

text \<open>The counting loop of \<open>checkContainers\<close> in \<open>main.go\<close>.\<close>

fun eligibleContainers_main_go :: "string \<Rightarrow> Container list \<Rightarrow> nat \<Rightarrow> nat" where
  "eligibleContainers_main_go registryURL [] n = n"
| "eligibleContainers_main_go registryURL (c # cs) n =
     eligibleContainers_main_go registryURL cs
       (if strings_Contains (c_Image c) registryURL then n + 1 else n)"

text \<open>
  The main loop of \<open>checkContainers\<close> in \<open>main.go\<close>, one iteration and the loop, in
  the same form; \<open>None\<close> when a pull ran out of fuel. An updated container is restarted
  in place with a timeout of 10 seconds.
\<close>

definition containerBody_main_go ::
  "client \<Rightarrow> nat \<Rightarrow> flags \<Rightarrow> string \<Rightarrow> AuthConfig \<Rightarrow> string \<Rightarrow> Container \<Rightarrow> nat
     \<Rightarrow> history \<Rightarrow> (unit outcome \<times> nat \<times> history) option" where
  "containerBody_main_go cli fuel fl registryURL authConfig notificationURL c
       updatedContainers h =
     (case c_Names c of
        [] \<Rightarrow> Some (Panic, updatedContainers, h)
      | name # _ \<Rightarrow>
         (if \<not> strings_Contains (c_Image c) registryURL
          then Some (Return (), updatedContainers, h)
          else (let h1 = h @ [Call_ImageInspectWithRaw (c_ImageID c)]
                in case ImageInspectWithRaw cli h (c_ImageID c) of
                     (imgInspect, Some e) \<Rightarrow> Some (Return (), updatedContainers, h1)
                   | (imgInspect, None) \<Rightarrow>
                      (let platform = img_Os imgInspect @ ''/'' @ img_Architecture imgInspect
                       in case pullImageAndCheckUpdate_main_go cli fuel (c_Image c)
                                 authConfig platform name notificationURL h1 of
                            None \<Rightarrow> None
                          | Some (Inl e, h2) \<Rightarrow> Some (Return (), updatedContainers, h2)
                          | Some (Inr hasUpdate, h2) \<Rightarrow>
                             (if \<not> hasUpdate then Some (Return (), updatedContainers, h2)
                              else (let seconds = 10;
                                        h3 = h2 @ [Call_ContainerRestart (c_ID c) seconds]
                                    in case ContainerRestart cli h2 (c_ID c) of
                                         Some e \<Rightarrow>
                                           Some (Return (), updatedContainers,
                                                 notify notificationURL
                                                   (''Error restarting '' @ name @ '': '' @ e) h3)
                                       | None \<Rightarrow>
                                          (let h4 = notify notificationURL
                                                      (''Successfully updated '' @ name) h3;
                                               h5 = (if cleanup fl
                                                     then pruneImages cli notificationURL h4
                                                     else h4)
                                           in Some (Return (), updatedContainers + 1, h5))))))))"

fun containersLoop_main_go ::
  "client \<Rightarrow> nat \<Rightarrow> flags \<Rightarrow> string \<Rightarrow> AuthConfig \<Rightarrow> string \<Rightarrow> Container list \<Rightarrow> nat
     \<Rightarrow> history \<Rightarrow> (unit outcome \<times> nat \<times> history) option" where
  "containersLoop_main_go cli fuel fl registryURL authConfig notificationURL []
       updatedContainers h = Some (Return (), updatedContainers, h)"
| "containersLoop_main_go cli fuel fl registryURL authConfig notificationURL (c # cs)
       updatedContainers h =
     (case containerBody_main_go cli fuel fl registryURL authConfig notificationURL c
             updatedContainers h of
        None \<Rightarrow> None
      | Some (Panic, updatedContainers', h') \<Rightarrow> Some (Panic, updatedContainers', h')
      | Some (Return u, updatedContainers', h') \<Rightarrow>
          containersLoop_main_go cli fuel fl registryURL authConfig notificationURL cs
            updatedContainers' h')"

definition checkContainers_main_go ::
  "client \<Rightarrow> nat \<Rightarrow> flags \<Rightarrow> string \<Rightarrow> string \<Rightarrow> string \<Rightarrow> string \<Rightarrow> history
     \<Rightarrow> (err outcome \<times> nat \<times> history) option" where
  "checkContainers_main_go cli fuel fl registryURL user pass notificationURL h =
     (let filt = (if labelEnable fl then Some enableLabel else None);
          h1 = h @ [Call_ContainerList True filt]
      in case ContainerList cli h True filt of
           Inl e \<Rightarrow> Some (Return (Some (''error listing containers: '' @ e)), 0, h1)
         | Inr containers \<Rightarrow>
            (if eligibleContainers_main_go registryURL containers 0 = 0
             then Some (Return None, 0, h1)
             else (case containersLoop_main_go cli fuel fl registryURL
                          \<lparr>auth_Username = user, auth_Password = pass,
                           auth_ServerAddress = registryURL\<rparr>
                          notificationURL containers 0 h1 of
                     None \<Rightarrow> None
                   | Some (Panic, updatedContainers, h2) \<Rightarrow>
                       Some (Panic, updatedContainers, h2)
                   | Some (Return u, updatedContainers, h2) \<Rightarrow>
                       Some (Return None, updatedContainers, h2))))"

text \<open>
  \<open>main\<close> of \<open>main.go\<close> up to a given number of ticks; \<open>None\<close> when a pull ran out of
  fuel. It ends the process at once when the user or the password is not set.
\<close>

fun ticksLoop_main_go ::
  "client \<Rightarrow> nat \<Rightarrow> flags \<Rightarrow> string \<Rightarrow> string \<Rightarrow> string \<Rightarrow> string \<Rightarrow> nat \<Rightarrow> history
     \<Rightarrow> run option" where
  "ticksLoop_main_go cli fuel fl registryURL registryUser registryPass notificationURL 0 h =
     Some (Running h)"
| "ticksLoop_main_go cli fuel fl registryURL registryUser registryPass notificationURL
       (Suc ticks) h =
     (case checkContainers_main_go cli fuel fl registryURL registryUser registryPass
             notificationURL h of
        None \<Rightarrow> None
      | Some (Panic, u, h1) \<Rightarrow> Some (Panicked h1)
      | Some (Return (Some e), u, h1) \<Rightarrow>
          ticksLoop_main_go cli fuel fl registryURL registryUser registryPass
            notificationURL ticks
            (notify notificationURL (''Error in check cycle: '' @ e) h1)
      | Some (Return None, u, h1) \<Rightarrow>
          ticksLoop_main_go cli fuel fl registryURL registryUser registryPass
            notificationURL ticks h1)"

definition main_main_go ::
  "(string \<Rightarrow> string) \<Rightarrow> string + client \<Rightarrow> nat \<Rightarrow> flags \<Rightarrow> nat \<Rightarrow> run option" where
  "main_main_go getenv newClient fuel fl ticks =
     (let registryUser = getenv ''REGISTRY_USERNAME'';
          registryPass = getenv ''REGISTRY_PASSWORD'';
          registryURL = getenv ''REGISTRY_URL'';
          notificationURL = getenv ''NOTIFICATION_URL''
      in if registryUser = [] \<or> registryPass = []
         then Some (Fatal ''REGISTRY_USERNAME and REGISTRY_PASSWORD must be set'')
         else (case newClient of
                 Inl e \<Rightarrow> Some (Fatal (''Error creating Docker client: '' @ e))
               | Inr cli \<Rightarrow>
                  (case checkContainers_main_go cli fuel fl registryURL registryUser
                          registryPass notificationURL [] of
                     None \<Rightarrow> None
                   | Some (Panic, u, h1) \<Rightarrow> Some (Panicked h1)
                   | Some (Return (Some e), u, h1) \<Rightarrow>
                       ticksLoop_main_go cli fuel fl registryURL registryUser registryPass
                         notificationURL ticks
                         (notify notificationURL (''Error in initial check: '' @ e) h1)
                   | Some (Return None, u, h1) \<Rightarrow>
                       ticksLoop_main_go cli fuel fl registryURL registryUser registryPass
                         notificationURL ticks h1)))"

section \<open>What a history shows\<close>

text \<open>
  The image references pulled and the platforms they were pulled for, the messages
  posted, the image references of the containers created, the number of prune requests,
  and whether every pull went without a credential.
\<close>

fun pulledImages :: "history \<Rightarrow> string list" where
  "pulledImages [] = []"
| "pulledImages (Call_ImagePull img opts # h) = img # pulledImages h"
| "pulledImages (r # h) = pulledImages h"

fun notifications :: "history \<Rightarrow> string list" where
  "notifications [] = []"
| "notifications (Call_HttpPost url message # h) = message # notifications h"
| "notifications (r # h) = notifications h"

fun createdImages :: "history \<Rightarrow> string list" where
  "createdImages [] = []"
| "createdImages (Call_ContainerCreate cfg hc nets name # h) = cfg_Image cfg # createdImages h"
| "createdImages (r # h) = createdImages h"

fun pulledPlatforms :: "history \<Rightarrow> string list" where
  "pulledPlatforms [] = []"
| "pulledPlatforms (Call_ImagePull img opts # h) = opt_Platform opts # pulledPlatforms h"
| "pulledPlatforms (r # h) = pulledPlatforms h"

definition prunes :: "history \<Rightarrow> nat" where
  "prunes h = length (filter (\<lambda>r. r = Call_ImagesPrune) h)"

fun anonymousRequest :: "request \<Rightarrow> bool" where
  "anonymousRequest (Call_ImagePull img opts) = (opt_RegistryAuth opts = NoAuth)"
| "anonymousRequest r = True"

definition anonymousPulls :: "history \<Rightarrow> bool" where
  "anonymousPulls h = list_all anonymousRequest h"

text \<open>The history of a run of \<open>main\<close>; a run that ended at startup has none.\<close>

fun historyOf :: "run \<Rightarrow> history" where
  "historyOf (Fatal m) = []"
| "historyOf (Panicked h) = h"
| "historyOf (Running h) = h"

section \<open>Example runtimes\<close>

text \<open>
  Concrete runtimes on which the program is evaluated. Their answers do not depend on
  the history, except for \<open>ex_cli_retry\<close>. \<open>ex_parse\<close> stands for \<open>time.Parse\<close> on the two
  timestamps that occur.
\<close>

definition ex_parse :: "string \<Rightarrow> int option" where
  "ex_parse s =
     (if s = ''2024-01-01T00:00:00Z'' then Some 1704067200000000000
      else if s = ''2024-06-01T00:00:00Z'' then Some 1717200000000000000
      else None)"

definition ex_image :: "string \<Rightarrow> string \<Rightarrow> string \<Rightarrow> ImageInspect" where
  "ex_image i tag created =
     \<lparr>img_ID = i, img_RepoTags = [tag], img_Created = created,
      img_Os = ''linux'', img_Architecture = ''amd64''\<rparr>"

definition ex_images :: "string \<Rightarrow> ImageInspect \<times> err" where
  "ex_images ref =
     (if ref = ''sha256:a1''
      then (ex_image ''sha256:a1'' ''registry.example.com/app:latest'' ''2024-01-01T00:00:00Z'', None)
      else if ref = ''registry.example.com/app:latest''
      then (ex_image ''sha256:a2'' ''registry.example.com/app:latest'' ''2024-06-01T00:00:00Z'', None)
      else if ref = ''sha256:r1''
      then (ex_image ''sha256:r1'' ''redis:7'' ''2024-01-01T00:00:00Z'', None)
      else if ref = ''redis:latest''
      then (ex_image ''sha256:r2'' ''redis:latest'' ''2024-06-01T00:00:00Z'', None)
      else if ref = ''sha256:p1''
      then (ex_image ''sha256:p1'' ''registry.example.com/api:v1'' ''2024-01-01T00:00:00Z'', None)
      else if ref = ''registry.example.com/api:latest''
      then (ex_image ''sha256:p2'' ''registry.example.com/api:latest'' ''2024-06-01T00:00:00Z'', None)
      else if ref = ''sha256:w1'' \<or> ref = ''registry.example.com/web:latest''
      then (ex_image ''sha256:w1'' ''registry.example.com/web:latest'' ''2024-01-01T00:00:00Z'', None)
      else if ref = ''registry.example.com/web:canary''
      then (ex_image ''sha256:w2'' ''registry.example.com/web:canary'' ''2024-06-01T00:00:00Z'', None)
      else (\<lparr>img_ID = [], img_RepoTags = [], img_Created = [], img_Os = [],
             img_Architecture = []\<rparr>, Some (''No such image: '' @ ref)))"

definition ex_app :: Container where
  "ex_app = \<lparr>c_ID = ''c1'', c_Names = [''/app''],
             c_Image = ''registry.example.com/app:latest'', c_ImageID = ''sha256:a1''\<rparr>"

definition ex_redis :: Container where
  "ex_redis = \<lparr>c_ID = ''c2'', c_Names = [''/redis''],
               c_Image = ''redis:7'', c_ImageID = ''sha256:r1''\<rparr>"

definition ex_api :: Container where
  "ex_api = \<lparr>c_ID = ''c3'', c_Names = [''/api''],
             c_Image = ''registry.example.com/api:v1'', c_ImageID = ''sha256:p1''\<rparr>"


definition ex_gone :: Container where
  "ex_gone = \<lparr>c_ID = ''c5'', c_Names = [''/gone''],
              c_Image = ''registry.example.com/gone:latest'', c_ImageID = ''sha256:g1''\<rparr>"

definition ex_snapshot :: "string \<Rightarrow> ContainerJSON" where
  "ex_snapshot cid =
     \<lparr>cj_Config =
        \<lparr>cfg_Image = (if cid = ''c1'' then ''registry.example.com/app:latest''
                      else if cid = ''c2'' then ''redis:7''
                      else if cid = ''c3'' then ''registry.example.com/api:v1''
                      else ''registry.example.com/web:latest''),
         cfg_Env = [''MODE=production''], cfg_Cmd = [''serve''],
         cfg_Labels = [(''puller.update.enable'', ''true'')]\<rparr>,
      cj_HostConfig =
        \<lparr>hc_Binds = [''/srv/data:/data''], hc_Mounts = [(''volume'', ''/cache'')],
         hc_RestartPolicy = ''unless-stopped''\<rparr>,
      cj_Networks =
        [(''backend'', \<lparr>ep_NetworkID = ''n1'', ep_IPAddress = ''172.18.0.5'',
                        ep_Aliases = [''svc'']\<rparr>)]\<rparr>"

definition ex_cli :: client where
  "ex_cli =
     \<lparr>ContainerList = (\<lambda>h all filt. Inr [ex_app, ex_redis]),
      ImageInspectWithRaw = (\<lambda>h ref. ex_images ref),
      ImagePull = (\<lambda>h img opts. Inr [Decoded ''Status: Downloaded newer image'' []]),
      ImageTag = (\<lambda>h src tgt. None),
      ImageRemove = (\<lambda>h img. None),
      ImagesPrune = (\<lambda>h. None),
      ContainerInspect = (\<lambda>h cid. Inr (ex_snapshot cid)),
      ContainerStop = (\<lambda>h cid. None),
      ContainerRemove = (\<lambda>h cid. None),
      ContainerCreate = (\<lambda>h cfg hc nets name. Inr (''new-'' @ name)),
      ContainerStart = (\<lambda>h cid. None),
      ContainerRestart = (\<lambda>h cid. None)\<rparr>"

definition ex_cli_with :: "Container list \<Rightarrow> client" where
  "ex_cli_with cs = ex_cli\<lparr>ContainerList := (\<lambda>h all filt. Inr cs)\<rparr>"

text \<open>
  A runtime whose every pull answers that no manifest matches, and one that answers so
  to the first \<open>n\<close> pulls of a run only.
\<close>

definition ex_no_manifest :: "pull_item list" where
  "ex_no_manifest = [Decoded [] ''no matching manifest for linux/arm64 in the manifest list entries'']"

definition ex_cli_never :: client where
  "ex_cli_never = ex_cli\<lparr>ImagePull := (\<lambda>h img opts. Inr ex_no_manifest)\<rparr>"

definition ex_cli_retry :: "nat \<Rightarrow> client" where
  "ex_cli_retry n =
     ex_cli\<lparr>ImagePull := (\<lambda>h img opts.
        if length h < n then Inr ex_no_manifest
        else Inr [Decoded ''Status: Downloaded newer image'' []])\<rparr>"


definition ex_env :: "string \<Rightarrow> string" where
  "ex_env v =
     (if v = ''REGISTRY_URL'' then ''registry.example.com''
      else if v = ''REGISTRY_USERNAME'' then ''bob''
      else if v = ''REGISTRY_PASSWORD'' then ''pw''
      else if v = ''NOTIFICATION_URL'' then ''http://hook''
      else [])"



definition ex_flags :: "bool \<Rightarrow> flags" where
  "ex_flags c = \<lparr>cleanup = c, labelEnable = False\<rparr>"

section \<open>Properties of the steps\<close>

lemma strings_Contains_empty: "strings_Contains s []"
  by (simp add: strings_Contains_def)

lemma strings_Split_nonempty: "strings_Split s sep \<noteq> []"
  by (induction s) (auto split: list.splits)

lemma hd_strings_Split: "hd (strings_Split s sep) = takeWhile (\<lambda>c. c \<noteq> sep) s"
  by (induction s) (auto simp: strings_Split_nonempty split: list.splits)

subsection \<open>Histories only grow\<close>

lemma notify_prefix: "prefix h (notify url m h)"
  by (simp add: notify_def)

lemma pull_prefix:
  "pullImageAndCheckUpdate parse cli img a pl n url cur h = (r, h') \<Longrightarrow> prefix h h'"
  by (auto simp add: pullImageAndCheckUpdate_def Let_def
      split: sum.splits prod.splits option.splits if_splits)

lemma recreate_prefix:
  "recreateContainer cli cid n url h = (r, h') \<Longrightarrow> prefix h h'"
  by (auto simp add: recreateContainer_def Let_def split: sum.splits option.splits)

lemma resolveDigest_prefix: "resolveDigest cli c h = (i, h') \<Longrightarrow> prefix h h'"
  by (auto simp add: resolveDigest_def split: prod.splits if_splits)

lemma retag_prefix: "prefix h (retagAsLatest cli rt tag iw h)"
  by (simp add: retagAsLatest_def Let_def split: option.splits)

lemma prune_prefix: "prefix h (pruneImages cli url h)"
  by (simp add: pruneImages_def notify_def split: option.splits)

lemma tagsLoop_prefix:
  "tagsLoop parse cli rt img a pl n url cur tags h = (b, h') \<Longrightarrow> prefix h h'"
proof (induction tags arbitrary: h)
  case Nil
  then show ?case by simp
next
  case (Cons tag tags)
  obtain r h1 where p: "pullImageAndCheckUpdate parse cli (imageWithTag img tag) a pl n url cur h = (r, h1)"
    by (cases "pullImageAndCheckUpdate parse cli (imageWithTag img tag) a pl n url cur h")
  have ph: "prefix h h1" using pull_prefix [OF p] .
  show ?case
  proof (cases "r = Inr True")
    case True
    with Cons.prems p have "h' = retagAsLatest cli rt tag (imageWithTag img tag) h1" by simp
    with ph retag_prefix [of h1 cli rt tag "imageWithTag img tag"] show ?thesis
      by (metis prefix_order.trans)
  next
    case False
    with Cons.prems p have "tagsLoop parse cli rt img a pl n url cur tags h1 = (b, h')"
      by (cases r) auto
    from Cons.IH [OF this] ph show ?thesis by (metis prefix_order.trans)
  qed
qed

lemma containerBody_cases:
  assumes "containerBody parse cli fl rt a url c u h = (r, u', h')"
  obtains
    (panic) "c_Names c = []" "r = Panic" "u' = u" "h' = h"
  | (inspect_failed) img h1 e where
      "c_Names c \<noteq> []" "resolveDigest cli c h = (img, h1)"
      "snd (ImageInspectWithRaw cli h1 (c_ImageID c)) = Some e"
      "r = Return ()" "u' = u" "h' = h1 @ [Call_ImageInspectWithRaw (c_ImageID c)]"
  | (no_update) img h1 where
      "c_Names c \<noteq> []" "resolveDigest cli c h = (img, h1)"
      "snd (ImageInspectWithRaw cli h1 (c_ImageID c)) = None"
      "tagsLoop parse cli rt img a
         (img_Os (fst (ImageInspectWithRaw cli h1 (c_ImageID c))) @ ''/''
            @ img_Architecture (fst (ImageInspectWithRaw cli h1 (c_ImageID c))))
         (strings_TrimPrefix (hd (c_Names c)) ''/'') url (c_ImageID c) (tagsToCheck rt)
         (h1 @ [Call_ImageInspectWithRaw (c_ImageID c)]) = (False, h')"
      "r = Return ()" "u' = u"
  | (recreate_failed) img h1 h3 e where
      "c_Names c \<noteq> []" "resolveDigest cli c h = (img, h1)"
      "snd (ImageInspectWithRaw cli h1 (c_ImageID c)) = None"
      "tagsLoop parse cli rt img a
         (img_Os (fst (ImageInspectWithRaw cli h1 (c_ImageID c))) @ ''/''
            @ img_Architecture (fst (ImageInspectWithRaw cli h1 (c_ImageID c))))
         (strings_TrimPrefix (hd (c_Names c)) ''/'') url (c_ImageID c) (tagsToCheck rt)
         (h1 @ [Call_ImageInspectWithRaw (c_ImageID c)]) = (True, h3)"
      "recreateContainer cli (c_ID c) (strings_TrimPrefix (hd (c_Names c)) ''/'') url h3
         = (Some e, h')"
      "r = Return ()" "u' = u"
  | (updated) img h1 h3 h4 where
      "c_Names c \<noteq> []" "resolveDigest cli c h = (img, h1)"
      "snd (ImageInspectWithRaw cli h1 (c_ImageID c)) = None"
      "tagsLoop parse cli rt img a
         (img_Os (fst (ImageInspectWithRaw cli h1 (c_ImageID c))) @ ''/''
            @ img_Architecture (fst (ImageInspectWithRaw cli h1 (c_ImageID c))))
         (strings_TrimPrefix (hd (c_Names c)) ''/'') url (c_ImageID c) (tagsToCheck rt)
         (h1 @ [Call_ImageInspectWithRaw (c_ImageID c)]) = (True, h3)"
      "recreateContainer cli (c_ID c) (strings_TrimPrefix (hd (c_Names c)) ''/'') url h3
         = (None, h4)"
      "r = Return ()" "u' = u + 1"
      "h' = (if cleanup fl
             then pruneImages cli url
                    (notify url (''Successfully updated ''
                       @ strings_TrimPrefix (hd (c_Names c)) ''/'') h4)
             else notify url (''Successfully updated ''
                       @ strings_TrimPrefix (hd (c_Names c)) ''/'') h4)"
proof (cases "c_Names c")
  case Nil
  with assms show ?thesis by (intro panic) (simp_all add: containerBody_def)
next
  case (Cons name0 names)
  obtain img h1 where rd: "resolveDigest cli c h = (img, h1)"
    by (cases "resolveDigest cli c h")
  obtain ii e where ins: "ImageInspectWithRaw cli h1 (c_ImageID c) = (ii, e)"
    by (cases "ImageInspectWithRaw cli h1 (c_ImageID c)")
  show ?thesis
  proof (cases e)
    case (Some m)
    with assms Cons rd ins show ?thesis
      by (intro inspect_failed [of img h1 m]) (simp_all add: containerBody_def)
  next
    case None
    obtain b h3 where tl: "tagsLoop parse cli rt img a (img_Os ii @ ''/'' @ img_Architecture ii)
         (strings_TrimPrefix name0 ''/'') url (c_ImageID c) (tagsToCheck rt)
         (h1 @ [Call_ImageInspectWithRaw (c_ImageID c)]) = (b, h3)"
      by (cases "tagsLoop parse cli rt img a (img_Os ii @ ''/'' @ img_Architecture ii)
         (strings_TrimPrefix name0 ''/'') url (c_ImageID c) (tagsToCheck rt)
         (h1 @ [Call_ImageInspectWithRaw (c_ImageID c)])")
    show ?thesis
    proof (cases b)
      case False
      with assms Cons rd ins None tl show ?thesis
        by (intro no_update [of img h1]) (simp_all add: containerBody_def)
    next
      case True
      obtain re h4 where rc: "recreateContainer cli (c_ID c) (strings_TrimPrefix name0 ''/'')
          url h3 = (re, h4)"
        by (cases "recreateContainer cli (c_ID c) (strings_TrimPrefix name0 ''/'') url h3")
      show ?thesis
      proof (cases re)
        case (Some m)
        with assms Cons rd ins None tl True rc show ?thesis
          by (intro recreate_failed [of img h1 h3 m]) (simp_all add: containerBody_def)
      next
        case None2: None
        with assms Cons rd ins None tl True rc show ?thesis
          by (intro updated [of img h1 h3 h4]) (auto simp add: containerBody_def Let_def)
      qed
    qed
  qed
qed

lemma containerBody_prefix:
  assumes "containerBody parse cli fl rt a url c u h = (r, u', h')"
  shows "prefix h h'"
  using assms
proof (cases rule: containerBody_cases)
  case panic
  then show ?thesis by simp
next
  case (inspect_failed img h1 e)
  have "prefix h h1" using inspect_failed(2) by (rule resolveDigest_prefix)
  with inspect_failed(6) show ?thesis by simp
next
  case (no_update img h1)
  have "prefix h (h1 @ [Call_ImageInspectWithRaw (c_ImageID c)])"
    using resolveDigest_prefix [OF no_update(2)] by simp
  also have "prefix \<dots> h'" using no_update(4) by (rule tagsLoop_prefix)
  finally show ?thesis .
next
  case (recreate_failed img h1 h3 e)
  have "prefix h (h1 @ [Call_ImageInspectWithRaw (c_ImageID c)])"
    using resolveDigest_prefix [OF recreate_failed(2)] by simp
  also have "prefix \<dots> h3" using recreate_failed(4) by (rule tagsLoop_prefix)
  also have "prefix h3 h'" using recreate_failed(5) by (rule recreate_prefix)
  finally show ?thesis .
next
  case (updated img h1 h3 h4)
  let ?n = "notify url (''Successfully updated '' @ strings_TrimPrefix (hd (c_Names c)) ''/'') h4"
  have "prefix h (h1 @ [Call_ImageInspectWithRaw (c_ImageID c)])"
    using resolveDigest_prefix [OF updated(2)] by simp
  also have "prefix \<dots> h3" using updated(4) by (rule tagsLoop_prefix)
  also have "prefix h3 h4" using updated(5) by (rule recreate_prefix)
  also have "prefix h4 ?n" by (rule notify_prefix)
  also have "prefix ?n h'"
    unfolding updated(8) by (simp add: prune_prefix)
  finally show ?thesis .
qed

lemma containersLoop_prefix:
  "containersLoop parse cli fl rt a url cs u h = (r, u', h') \<Longrightarrow> prefix h h'"
proof (induction cs arbitrary: u h)
  case Nil
  then show ?case by simp
next
  case (Cons c cs)
  obtain r1 u1 h1 where b: "containerBody parse cli fl rt a url c u h = (r1, u1, h1)"
    by (cases "containerBody parse cli fl rt a url c u h") auto
  have p: "prefix h h1" using b by (rule containerBody_prefix)
  show ?case
  proof (cases r1)
    case Panic
    with Cons.prems b p show ?thesis by simp
  next
    case (Return x)
    with Cons.prems b have "containersLoop parse cli fl rt a url cs u1 h1 = (r, u', h')"
      by simp
    from Cons.IH [OF this] p show ?thesis by (metis prefix_order.trans)
  qed
qed

subsection \<open>What each step adds to a history\<close>

lemma pulledImages_append: "pulledImages (a @ b) = pulledImages a @ pulledImages b"
  by (induction a rule: pulledImages.induct) simp_all

lemma prunes_append: "prunes (a @ b) = prunes a + prunes b"
  by (simp add: prunes_def)

lemma anonymousPulls_append: "anonymousPulls (a @ b) = (anonymousPulls a \<and> anonymousPulls b)"
  by (simp add: anonymousPulls_def)

lemmas obs_simps = pulledImages_append prunes_append anonymousPulls_append prunes_def
  anonymousPulls_def

lemma notify_obs:
  "pulledImages (notify url m h) = pulledImages h"
  "prunes (notify url m h) = prunes h"
  "anonymousPulls (notify url m h) = anonymousPulls h"
  by (simp_all add: notify_def obs_simps)

lemma pruneImages_obs:
  "pulledImages (pruneImages cli url h) = pulledImages h"
  "prunes (pruneImages cli url h) = prunes h + 1"
  "anonymousPulls (pruneImages cli url h) = anonymousPulls h"
  by (simp_all add: pruneImages_def notify_def obs_simps split: option.splits)

lemma resolveDigest_obs:
  assumes "resolveDigest cli c h = (i, h')"
  shows "pulledImages h' = pulledImages h" "prunes h' = prunes h"
    "anonymousPulls h' = anonymousPulls h"
  using assms by (auto simp add: resolveDigest_def obs_simps split: prod.splits if_splits)

lemma recreate_obs:
  assumes "recreateContainer cli cid n url h = (r, h')"
  shows "pulledImages h' = pulledImages h" "prunes h' = prunes h"
    "anonymousPulls h' = anonymousPulls h"
  using assms
  by (auto simp add: recreateContainer_def Let_def obs_simps split: sum.splits option.splits)

lemma retag_obs:
  "pulledImages (retagAsLatest cli rt tag iw h) = pulledImages h"
  "prunes (retagAsLatest cli rt tag iw h) = prunes h"
  "anonymousPulls (retagAsLatest cli rt tag iw h) = anonymousPulls h"
  by (simp_all add: retagAsLatest_def Let_def obs_simps split: option.splits)

lemma pull_obs:
  assumes "pullImageAndCheckUpdate parse cli img a pl n url cur h = (r, h')"
  shows "pulledImages h' = pulledImages h @ [img]" "prunes h' = prunes h"
    "auth_Username a = [] \<or> auth_Password a = [] \<Longrightarrow> anonymousPulls h' = anonymousPulls h"
    "Call_ImagePull img (pullOptions a pl) \<in> set h'"
  using assms
  by (auto simp add: pullImageAndCheckUpdate_def Let_def obs_simps pullOptions_def
      split: sum.splits option.splits prod.splits if_splits)

lemma tagsLoop_preserves:
  assumes step: "\<And>tag h r h1.
      pullImageAndCheckUpdate parse cli (imageWithTag img tag) a pl n url cur h = (r, h1)
      \<Longrightarrow> f h1 = f h"
    and retag: "\<And>tag iw h. f (retagAsLatest cli rt tag iw h) = f h"
    and run: "tagsLoop parse cli rt img a pl n url cur tags h = (b, h')"
  shows "f h' = f h"
  using run
proof (induction tags arbitrary: h)
  case Nil
  then show ?case by simp
next
  case (Cons tag tags)
  obtain r h1 where p: "pullImageAndCheckUpdate parse cli (imageWithTag img tag) a pl n url cur h = (r, h1)"
    by (cases "pullImageAndCheckUpdate parse cli (imageWithTag img tag) a pl n url cur h")
  show ?case
  proof (cases "r = Inr True")
    case True
    with Cons.prems p have "h' = retagAsLatest cli rt tag (imageWithTag img tag) h1" by simp
    with step [OF p] retag show ?thesis by simp
  next
    case False
    with Cons.prems p have "tagsLoop parse cli rt img a pl n url cur tags h1 = (b, h')"
      by (cases r) auto
    from Cons.IH [OF this] step [OF p] show ?thesis by simp
  qed
qed

lemma tagsLoop_prunes:
  "tagsLoop parse cli rt img a pl n url cur tags h = (b, h') \<Longrightarrow> prunes h' = prunes h"
  by (rule tagsLoop_preserves [where f = prunes]) (auto simp add: pull_obs retag_obs)

lemma tagsLoop_anonymous:
  "auth_Username a = [] \<or> auth_Password a = [] \<Longrightarrow>
   tagsLoop parse cli rt img a pl n url cur tags h = (b, h') \<Longrightarrow>
   anonymousPulls h' = anonymousPulls h"
  by (rule tagsLoop_preserves [where f = anonymousPulls and a = a])
     (auto simp add: pull_obs retag_obs)

lemma tagsLoop_first_pull:
  assumes "tagsLoop parse cli rt img a pl n url cur (tag # tags) h = (b, h')"
  shows "Call_ImagePull (imageWithTag img tag) (pullOptions a pl) \<in> set h'"
proof -
  obtain r h1 where p: "pullImageAndCheckUpdate parse cli (imageWithTag img tag) a pl n url cur h = (r, h1)"
    by (cases "pullImageAndCheckUpdate parse cli (imageWithTag img tag) a pl n url cur h")
  have m: "Call_ImagePull (imageWithTag img tag) (pullOptions a pl) \<in> set h1"
    using p by (rule pull_obs(4))
  have "prefix h1 h'"
  proof (cases "r = Inr True")
    case True
    with assms p have "h' = retagAsLatest cli rt tag (imageWithTag img tag) h1" by simp
    then show ?thesis by (simp add: retag_prefix)
  next
    case False
    with assms p have "tagsLoop parse cli rt img a pl n url cur tags h1 = (b, h')"
      by (cases r) auto
    then show ?thesis by (rule tagsLoop_prefix)
  qed
  with m show ?thesis using set_mono_prefix by blast
qed

lemma tagsLoop_pulled:
  "tagsLoop parse cli rt img a pl n url cur tags h = (b, h') \<Longrightarrow>
   \<exists>k. (tags \<noteq> [] \<longrightarrow> 1 \<le> k)
       \<and> pulledImages h' = pulledImages h @ take k (map (imageWithTag img) tags)"
proof (induction tags arbitrary: h)
  case Nil
  then show ?case by simp
next
  case (Cons tag tags)
  obtain r h1 where p: "pullImageAndCheckUpdate parse cli (imageWithTag img tag) a pl n url cur h = (r, h1)"
    by (cases "pullImageAndCheckUpdate parse cli (imageWithTag img tag) a pl n url cur h")
  have ph: "pulledImages h1 = pulledImages h @ [imageWithTag img tag]"
    using p by (rule pull_obs(1))
  show ?case
  proof (cases "r = Inr True")
    case True
    with Cons.prems p have "h' = retagAsLatest cli rt tag (imageWithTag img tag) h1" by simp
    with ph have "pulledImages h' = pulledImages h @ take 1 (map (imageWithTag img) (tag # tags))"
      by (simp add: retag_obs)
    then show ?thesis by (intro exI [of _ 1]) simp
  next
    case False
    with Cons.prems p have "tagsLoop parse cli rt img a pl n url cur tags h1 = (b, h')"
      by (cases r) auto
    from Cons.IH [OF this] obtain k where
      "pulledImages h' = pulledImages h1 @ take k (map (imageWithTag img) tags)" by blast
    with ph have "pulledImages h' = pulledImages h @ take (Suc k) (map (imageWithTag img) (tag # tags))"
      by simp
    then show ?thesis by (intro exI [of _ "Suc k"]) simp
  qed
qed

subsection \<open>The loop over the containers\<close>

lemma containerBody_prunes:
  assumes "containerBody parse cli fl rt a url c u h = (r, u', h')"
  shows "prunes h' + (if cleanup fl then u else 0) = prunes h + (if cleanup fl then u' else 0)"
  using assms
proof (cases rule: containerBody_cases)
  case panic
  then show ?thesis by simp
next
  case (inspect_failed img h1 e)
  then show ?thesis using resolveDigest_obs(2) [of cli c h img h1] by (simp add: obs_simps)
next
  case (no_update img h1)
  then show ?thesis
    using resolveDigest_obs(2) [of cli c h img h1] tagsLoop_prunes [OF no_update(4)]
    by (simp add: obs_simps)
next
  case (recreate_failed img h1 h3 e)
  then show ?thesis
    using resolveDigest_obs(2) [of cli c h img h1] tagsLoop_prunes [OF recreate_failed(4)]
      recreate_obs(2) [OF recreate_failed(5)]
    by (simp add: obs_simps)
next
  case (updated img h1 h3 h4)
  then show ?thesis
    using resolveDigest_obs(2) [of cli c h img h1] tagsLoop_prunes [OF updated(4)]
      recreate_obs(2) [OF updated(5)]
    by (simp add: notify_obs pruneImages_obs prunes_append) (simp add: prunes_def)
qed

lemma containerBody_anonymous:
  assumes "containerBody parse cli fl rt a url c u h = (r, u', h')"
    and an: "auth_Username a = [] \<or> auth_Password a = []"
  shows "anonymousPulls h' = anonymousPulls h"
  using assms(1)
proof (cases rule: containerBody_cases)
  case panic
  then show ?thesis by simp
next
  case (inspect_failed img h1 e)
  then show ?thesis using resolveDigest_obs(3) [of cli c h img h1] by (simp add: obs_simps)
next
  case (no_update img h1)
  then show ?thesis
    using resolveDigest_obs(3) [of cli c h img h1] tagsLoop_anonymous [OF an no_update(4)]
    by (simp add: obs_simps)
next
  case (recreate_failed img h1 h3 e)
  then show ?thesis
    using resolveDigest_obs(3) [of cli c h img h1] tagsLoop_anonymous [OF an recreate_failed(4)]
      recreate_obs(3) [OF recreate_failed(5)]
    by (simp add: obs_simps)
next
  case (updated img h1 h3 h4)
  then show ?thesis
    using resolveDigest_obs(3) [of cli c h img h1] tagsLoop_anonymous [OF an updated(4)]
      recreate_obs(3) [OF updated(5)]
    by (simp add: notify_obs pruneImages_obs anonymousPulls_append) (simp add: anonymousPulls_def)
qed

lemma containersLoop_prunes:
  "containersLoop parse cli fl rt a url cs u h = (r, u', h') \<Longrightarrow>
   prunes h' + (if cleanup fl then u else 0) = prunes h + (if cleanup fl then u' else 0)"
proof (induction cs arbitrary: u h)
  case Nil
  then show ?case by simp
next
  case (Cons c cs)
  obtain r1 u1 h1 where b: "containerBody parse cli fl rt a url c u h = (r1, u1, h1)"
    by (cases "containerBody parse cli fl rt a url c u h") auto
  note s = containerBody_prunes [OF b]
  show ?case
  proof (cases r1)
    case Panic
    with Cons.prems b s show ?thesis by simp
  next
    case (Return x)
    with Cons.prems b have "containersLoop parse cli fl rt a url cs u1 h1 = (r, u', h')"
      by simp
    from Cons.IH [OF this] s show ?thesis by (simp split: if_splits)
  qed
qed

lemma containersLoop_anonymous:
  "auth_Username a = [] \<or> auth_Password a = [] \<Longrightarrow>
   containersLoop parse cli fl rt a url cs u h = (r, u', h') \<Longrightarrow>
   anonymousPulls h' = anonymousPulls h"
proof (induction cs arbitrary: u h)
  case Nil
  then show ?case by simp
next
  case (Cons c cs)
  obtain r1 u1 h1 where b: "containerBody parse cli fl rt a url c u h = (r1, u1, h1)"
    by (cases "containerBody parse cli fl rt a url c u h") auto
  note s = containerBody_anonymous [OF b Cons.prems(1)]
  show ?case
  proof (cases r1)
    case Panic
    with Cons.prems b s show ?thesis by simp
  next
    case (Return x)
    with Cons.prems b have "containersLoop parse cli fl rt a url cs u1 h1 = (r, u', h')"
      by simp
    from Cons.IH [OF Cons.prems(1) this] s show ?thesis by simp
  qed
qed

lemma eligibleContainers_obs:
  "eligibleContainers cli registryURL user cs n h = (k, h') \<Longrightarrow>
   prunes h' = prunes h \<and> anonymousPulls h' = anonymousPulls h \<and> prefix h h'"
proof (induction cs arbitrary: n h)
  case Nil
  then show ?case by simp
next
  case (Cons c cs)
  obtain i h1 where rd: "resolveDigest cli c h = (i, h1)" by (cases "resolveDigest cli c h")
  with Cons.prems have "eligibleContainers cli registryURL user cs
      (if strings_Contains i registryURL \<or> strings_Contains i user then n + 1 else n) h1 = (k, h')"
    by simp
  from Cons.IH [OF this] resolveDigest_obs [OF rd] resolveDigest_prefix [OF rd]
  show ?case by (metis prefix_order.trans)
qed

lemma eligibleContainers_all:
  "fst (eligibleContainers cli [] user cs n h) = n + length cs"
  by (induction cs arbitrary: n h)
     (auto simp add: strings_Contains_empty split: prod.splits)

subsection \<open>The steps of \<open>main.go\<close>\<close>

lemma pullLoop_main_go_adds_pulls:
  "pullLoop_main_go cli fuel img a resp b h = Some (r, h') \<Longrightarrow>
   \<exists>evs. h' = h @ evs \<and> set evs \<subseteq> range (Call_ImagePull img)"
proof (induction cli fuel img a resp b h rule: pullLoop_main_go.induct)
  case (1 cli fuel img authConfig needsUpdate h)
  then show ?case by simp
next
  case (2 cli fuel img authConfig resp needsUpdate h)
  then show ?case by simp
next
  case (3 cli fuel img authConfig status error resp needsUpdate h)
  let ?opts = "\<lparr>opt_RegistryAuth = encodeAuth authConfig, opt_Platform = ''linux/amd64''\<rparr>"
  show ?case
  proof (cases "error \<noteq> []")
    case False
    with 3 show ?thesis by (auto split: if_splits)
  next
    case err: True
    show ?thesis
    proof (cases "strings_Contains error ''no matching manifest''")
      case False
      with 3 err show ?thesis by auto
    next
      case mm: True
      show ?thesis
      proof (cases fuel)
        case 0
        with 3(5) err mm show ?thesis by simp
      next
        case (Suc fuel')
        show ?thesis
        proof (cases "ImagePull cli h img ?opts")
          case (Inl e)
          with 3(5) err mm Suc show ?thesis by (auto simp add: Let_def)
        next
          case (Inr resp')
          with 3(5) err mm Suc
          have run: "pullLoop_main_go cli fuel' img authConfig resp' needsUpdate
                       (h @ [Call_ImagePull img ?opts]) = Some (r, h')"
            by (simp add: Let_def)
          from "3.IH"(1) [OF err mm Suc refl refl Inr run]
          obtain evs where "h' = (h @ [Call_ImagePull img ?opts]) @ evs"
            "set evs \<subseteq> range (Call_ImagePull img)" by blast
          then have "h' = h @ (Call_ImagePull img ?opts # evs)"
            "set (Call_ImagePull img ?opts # evs) \<subseteq> range (Call_ImagePull img)"
            by auto
          then show ?thesis by blast
        qed
      qed
    qed
  qed
qed

lemma pull_main_go_adds_pulls:
  assumes "pullImageAndCheckUpdate_main_go cli fuel img a pl n url h = Some (r, h')"
  shows "\<exists>evs. h' = h @ Call_ImagePull img
                        \<lparr>opt_RegistryAuth = encodeAuth a, opt_Platform = pl\<rparr> # evs
               \<and> set evs \<subseteq> range (Call_ImagePull img)"
proof (cases "ImagePull cli h img \<lparr>opt_RegistryAuth = encodeAuth a, opt_Platform = pl\<rparr>")
  case (Inl e)
  with assms have "h' = h @ Call_ImagePull img
      \<lparr>opt_RegistryAuth = encodeAuth a, opt_Platform = pl\<rparr> # []"
    by (auto simp add: pullImageAndCheckUpdate_main_go_def Let_def)
  then show ?thesis by (intro exI [of _ "[]"]) simp
next
  case (Inr resp)
  with assms have "pullLoop_main_go cli fuel img a resp False
      (h @ [Call_ImagePull img \<lparr>opt_RegistryAuth = encodeAuth a, opt_Platform = pl\<rparr>])
      = Some (r, h')"
    by (simp add: pullImageAndCheckUpdate_main_go_def Let_def)
  from pullLoop_main_go_adds_pulls [OF this] show ?thesis by auto
qed

lemma prunes_pulls: "set evs \<subseteq> range (Call_ImagePull img) \<Longrightarrow> prunes evs = 0"
  by (auto simp add: prunes_def filter_empty_conv)

lemma pull_main_go_obs:
  assumes "pullImageAndCheckUpdate_main_go cli fuel img a pl n url h = Some (r, h')"
  shows "prunes h' = prunes h" "prefix h h'"
    "Call_ImagePull img \<lparr>opt_RegistryAuth = encodeAuth a, opt_Platform = pl\<rparr> \<in> set h'"
proof -
  from pull_main_go_adds_pulls [OF assms] obtain evs where
    h': "h' = h @ Call_ImagePull img \<lparr>opt_RegistryAuth = encodeAuth a, opt_Platform = pl\<rparr> # evs"
    and evs: "set evs \<subseteq> range (Call_ImagePull img)" by blast
  show "prunes h' = prunes h"
    using prunes_pulls [OF evs] by (simp add: h' prunes_def)
  show "prefix h h'" by (simp add: h')
  show "Call_ImagePull img \<lparr>opt_RegistryAuth = encodeAuth a, opt_Platform = pl\<rparr> \<in> set h'"
    by (simp add: h')
qed

lemma containerBody_main_go_cases:
  assumes "containerBody_main_go cli fuel fl registryURL a url c u h = Some (r, u', h')"
  obtains
    (panic) "c_Names c = []" "r = Panic" "u' = u" "h' = h"
  | (skipped) "c_Names c \<noteq> []" "\<not> strings_Contains (c_Image c) registryURL"
      "r = Return ()" "u' = u" "h' = h"
  | (inspect_failed) e where
      "c_Names c \<noteq> []" "strings_Contains (c_Image c) registryURL"
      "snd (ImageInspectWithRaw cli h (c_ImageID c)) = Some e"
      "r = Return ()" "u' = u" "h' = h @ [Call_ImageInspectWithRaw (c_ImageID c)]"
  | (not_restarted) pr h2 where
      "c_Names c \<noteq> []" "strings_Contains (c_Image c) registryURL"
      "snd (ImageInspectWithRaw cli h (c_ImageID c)) = None"
      "pullImageAndCheckUpdate_main_go cli fuel (c_Image c) a
         (img_Os (fst (ImageInspectWithRaw cli h (c_ImageID c))) @ ''/''
            @ img_Architecture (fst (ImageInspectWithRaw cli h (c_ImageID c))))
         (hd (c_Names c)) url (h @ [Call_ImageInspectWithRaw (c_ImageID c)]) = Some (pr, h2)"
      "r = Return ()" "u' = u"
      "h' = h2 \<or> (\<exists>m. h' = notify url m (h2 @ [Call_ContainerRestart (c_ID c) 10]))"
  | (updated) h2 where
      "c_Names c \<noteq> []" "strings_Contains (c_Image c) registryURL"
      "snd (ImageInspectWithRaw cli h (c_ImageID c)) = None"
      "pullImageAndCheckUpdate_main_go cli fuel (c_Image c) a
         (img_Os (fst (ImageInspectWithRaw cli h (c_ImageID c))) @ ''/''
            @ img_Architecture (fst (ImageInspectWithRaw cli h (c_ImageID c))))
         (hd (c_Names c)) url (h @ [Call_ImageInspectWithRaw (c_ImageID c)])
         = Some (Inr True, h2)"
      "ContainerRestart cli h2 (c_ID c) = None"
      "r = Return ()" "u' = u + 1"
      "h' = (if cleanup fl
             then pruneImages cli url
                    (notify url (''Successfully updated '' @ hd (c_Names c))
                       (h2 @ [Call_ContainerRestart (c_ID c) 10]))
             else notify url (''Successfully updated '' @ hd (c_Names c))
                    (h2 @ [Call_ContainerRestart (c_ID c) 10]))"
proof (cases "c_Names c")
  case Nil
  with assms show ?thesis by (intro panic) (simp_all add: containerBody_main_go_def)
next
  case (Cons name names)
  show ?thesis
  proof (cases "strings_Contains (c_Image c) registryURL")
    case False
    with assms Cons show ?thesis by (intro skipped) (simp_all add: containerBody_main_go_def)
  next
    case el: True
    obtain ii e where ins: "ImageInspectWithRaw cli h (c_ImageID c) = (ii, e)"
      by (cases "ImageInspectWithRaw cli h (c_ImageID c)")
    show ?thesis
    proof (cases e)
      case (Some m)
      with assms Cons el ins show ?thesis
        by (intro inspect_failed [of m]) (simp_all add: containerBody_main_go_def)
    next
      case None
      let ?p = "pullImageAndCheckUpdate_main_go cli fuel (c_Image c) a
         (img_Os ii @ ''/'' @ img_Architecture ii) name url
         (h @ [Call_ImageInspectWithRaw (c_ImageID c)])"
      from assms Cons el ins None obtain pr h2 where p: "?p = Some (pr, h2)"
        by (cases ?p) (auto simp add: containerBody_main_go_def Let_def)
      show ?thesis
      proof (cases "pr = Inr True")
        case False
        with assms Cons el ins None p show ?thesis
          by (intro not_restarted [of pr h2]) (cases pr; simp add: containerBody_main_go_def)+
      next
        case up: True
        show ?thesis
        proof (cases "ContainerRestart cli h2 (c_ID c)")
          case (Some m)
          with assms Cons el ins None p up show ?thesis
            by (intro not_restarted [of pr h2])
               (auto simp add: containerBody_main_go_def Let_def)
        next
          case rs: None
          with assms Cons el ins None p up show ?thesis
            by (intro updated [of h2]) (auto simp add: containerBody_main_go_def Let_def)
        qed
      qed
    qed
  qed
qed

lemma containerBody_main_go_prunes:
  assumes "containerBody_main_go cli fuel fl registryURL a url c u h = Some (r, u', h')"
  shows "prunes h' + (if cleanup fl then u else 0) = prunes h + (if cleanup fl then u' else 0)"
  using assms
proof (cases rule: containerBody_main_go_cases)
  case panic
  then show ?thesis by simp
next
  case skipped
  then show ?thesis by simp
next
  case (inspect_failed e)
  then show ?thesis by (simp add: obs_simps)
next
  case (not_restarted pr h2)
  from pull_main_go_obs(1) [OF not_restarted(4)] not_restarted(5,6,7)
  show ?thesis by (auto simp add: notify_obs prunes_append) (simp_all add: prunes_def)
next
  case (updated h2)
  from pull_main_go_obs(1) [OF updated(4)] updated(6,7,8)
  show ?thesis
    by (auto simp add: notify_obs pruneImages_obs prunes_append) (simp_all add: prunes_def)
qed

lemma containerBody_main_go_prefix:
  assumes "containerBody_main_go cli fuel fl registryURL a url c u h = Some (r, u', h')"
  shows "prefix h h'"
  using assms
proof (cases rule: containerBody_main_go_cases)
  case panic
  then show ?thesis by simp
next
  case skipped
  then show ?thesis by simp
next
  case (inspect_failed e)
  then show ?thesis by simp
next
  case (not_restarted pr h2)
  have "prefix h (h @ [Call_ImageInspectWithRaw (c_ImageID c)])" by simp
  also have "prefix \<dots> h2" using not_restarted(4) by (rule pull_main_go_obs(2))
  also have "prefix h2 h'" using not_restarted(7) by (auto simp add: notify_def)
  finally show ?thesis .
next
  case (updated h2)
  let ?n = "notify url (''Successfully updated '' @ hd (c_Names c))
              (h2 @ [Call_ContainerRestart (c_ID c) 10])"
  have "prefix h (h @ [Call_ImageInspectWithRaw (c_ImageID c)])" by simp
  also have "prefix \<dots> h2" using updated(4) by (rule pull_main_go_obs(2))
  also have "prefix h2 ?n" by (simp add: notify_def)
  also have "prefix ?n h'" unfolding updated(8) by (simp add: prune_prefix)
  finally show ?thesis .
qed

lemma containersLoop_main_go_prunes:
  "containersLoop_main_go cli fuel fl registryURL a url cs u h = Some (r, u', h') \<Longrightarrow>
   prunes h' + (if cleanup fl then u else 0) = prunes h + (if cleanup fl then u' else 0)"
proof (induction cs arbitrary: u h)
  case Nil
  then show ?case by simp
next
  case (Cons c cs)
  from Cons.prems obtain r1 u1 h1 where
    b: "containerBody_main_go cli fuel fl registryURL a url c u h = Some (r1, u1, h1)"
    by (cases "containerBody_main_go cli fuel fl registryURL a url c u h") auto
  note s = containerBody_main_go_prunes [OF b]
  show ?case
  proof (cases r1)
    case Panic
    with Cons.prems b s show ?thesis by simp
  next
    case (Return x)
    with Cons.prems b
    have "containersLoop_main_go cli fuel fl registryURL a url cs u1 h1 = Some (r, u', h')"
      by simp
    from Cons.IH [OF this] s show ?thesis by (simp split: if_splits)
  qed
qed

lemma containersLoop_main_go_prefix:
  "containersLoop_main_go cli fuel fl registryURL a url cs u h = Some (r, u', h') \<Longrightarrow>
   prefix h h'"
proof (induction cs arbitrary: u h)
  case Nil
  then show ?case by simp
next
  case (Cons c cs)
  from Cons.prems obtain r1 u1 h1 where
    b: "containerBody_main_go cli fuel fl registryURL a url c u h = Some (r1, u1, h1)"
    by (cases "containerBody_main_go cli fuel fl registryURL a url c u h") auto
  note s = containerBody_main_go_prefix [OF b]
  show ?case
  proof (cases r1)
    case Panic
    with Cons.prems b s show ?thesis by simp
  next
    case (Return x)
    with Cons.prems b
    have "containersLoop_main_go cli fuel fl registryURL a url cs u1 h1 = Some (r, u', h')"
      by simp
    from Cons.IH [OF this] s show ?thesis by (metis prefix_order.trans)
  qed
qed

lemma eligibleContainers_main_go_all:
  "eligibleContainers_main_go [] cs n = n + length cs"
  by (induction cs arbitrary: n) (simp_all add: strings_Contains_empty)

subsection \<open>The update plan\<close>

lemma strings_Contains_char: "strings_Contains s [x] \<longleftrightarrow> x \<in> set s"
  by (induction s) (auto simp add: strings_Contains_def sublist_Cons_right)

lemma imageWithTag_takeWhile:
  "imageWithTag img tag = takeWhile (\<lambda>c. c \<noteq> CHR '':'') img @ '':'' @ tag"
proof (cases "CHR '':'' \<in> set img")
  case True
  then show ?thesis by (simp add: imageWithTag_def strings_Contains_char hd_strings_Split)
next
  case False
  then have tw: "takeWhile (\<lambda>c. c \<noteq> CHR '':'') img = img"
    by (intro takeWhile_eq_all_conv [THEN iffD2]) auto
  from False show ?thesis by (simp add: imageWithTag_def strings_Contains_char tw)
qed



subsection \<open>Runs without a credential\<close>

lemma authConfigOf_anonymous:
  "user = [] \<or> pass = [] \<Longrightarrow>
   auth_Username (authConfigOf registryURL user pass) = []
   \<or> auth_Password (authConfigOf registryURL user pass) = []"
  by (auto simp add: authConfigOf_def)

lemma checkContainers_anonymous:
  assumes "user = [] \<or> pass = []"
  shows "anonymousPulls (snd (snd (checkContainers parse cli fl registryURL user pass
            registryTag url h))) = anonymousPulls h"
proof -
  let ?filt = "if labelEnable fl then Some (enableLabel @ ''=true'') else None"
  show ?thesis
  proof (cases "ContainerList cli h True ?filt")
    case (Inl e)
    then show ?thesis by (simp add: checkContainers_def Let_def obs_simps)
  next
    case (Inr cs)
    obtain k h2 where el: "eligibleContainers cli registryURL user cs 0
        (h @ [Call_ContainerList True ?filt]) = (k, h2)"
      by (cases "eligibleContainers cli registryURL user cs 0 (h @ [Call_ContainerList True ?filt])")
    have h2: "anonymousPulls h2 = anonymousPulls h"
      using eligibleContainers_obs [OF el] by (simp add: obs_simps)
    obtain r u h3 where lp: "containersLoop parse cli fl registryTag
        (authConfigOf registryURL user pass) url cs 0 h2 = (r, u, h3)"
      by (cases "containersLoop parse cli fl registryTag
        (authConfigOf registryURL user pass) url cs 0 h2") auto
    have h3: "anonymousPulls h3 = anonymousPulls h2"
      using containersLoop_anonymous [OF authConfigOf_anonymous [OF assms] lp] .
    show ?thesis
      using Inr el lp h2 h3
      by (cases r) (simp_all add: checkContainers_def Let_def)
  qed
qed

lemma ticksLoop_anonymous:
  assumes "user = [] \<or> pass = []"
  shows "(\<forall>m. ticksLoop parse cli fl registryURL user pass registryTag url ticks h \<noteq> Fatal m)
         \<and> anonymousPulls (historyOf (ticksLoop parse cli fl registryURL user pass
              registryTag url ticks h)) = anonymousPulls h"
proof (induction ticks arbitrary: h)
  case 0
  show ?case by simp
next
  case (Suc ticks)
  obtain r u h1 where c: "checkContainers parse cli fl registryURL user pass registryTag url h
      = (r, u, h1)"
    by (cases "checkContainers parse cli fl registryURL user pass registryTag url h") auto
  have h1: "anonymousPulls h1 = anonymousPulls h"
    using checkContainers_anonymous [OF assms, of parse cli fl registryURL registryTag url h] c
    by simp
  show ?case
  proof (cases r)
    case Panic
    with c h1 show ?thesis by simp
  next
    case (Return e)
    show ?thesis
    proof (cases e)
      case None
      with Return c h1 Suc.IH [of h1] show ?thesis by simp
    next
      case (Some m)
      with Return c h1 Suc.IH [of "notify url (''Error in check cycle: '' @ m) h1"]
      show ?thesis by (simp add: notify_obs)
    qed
  qed
qed

subsection \<open>Every container of the list is reached\<close>

lemma containerBody_pulls:
  assumes run: "containerBody parse cli fl rt a url c u h = (r, u', h')"
    and names: "c_Names c \<noteq> []"
    and insp: "\<And>hh. snd (ImageInspectWithRaw cli hh (c_ImageID c)) = None"
  shows "r = Return ()"
    and "\<exists>hh opts. Call_ImagePull (imageWithTag (fst (resolveDigest cli c hh)) ''latest'') opts
           \<in> set h'"
proof -
  have tags: "tagsToCheck rt = ''latest'' # tl (tagsToCheck rt)"
    by (simp add: tagsToCheck_def)
  have "r = Return () \<and> (\<exists>h3. prefix h3 h'
          \<and> Call_ImagePull (imageWithTag (fst (resolveDigest cli c h)) ''latest'')
               (pullOptions a (img_Os (fst (ImageInspectWithRaw cli (snd (resolveDigest cli c h))
                    (c_ImageID c))) @ ''/''
                  @ img_Architecture (fst (ImageInspectWithRaw cli (snd (resolveDigest cli c h))
                    (c_ImageID c))))) \<in> set h3)"
    using run
  proof (cases rule: containerBody_cases)
    case panic
    with names show ?thesis by simp
  next
    case (inspect_failed img h1 e)
    with insp show ?thesis by simp
  next
    case (no_update img h1)
    from no_update(4) have "Call_ImagePull (imageWithTag img ''latest'')
        (pullOptions a (img_Os (fst (ImageInspectWithRaw cli h1 (c_ImageID c))) @ ''/''
            @ img_Architecture (fst (ImageInspectWithRaw cli h1 (c_ImageID c))))) \<in> set h'"
      by (subst (asm) tags) (rule tagsLoop_first_pull)
    with no_update(2,5) show ?thesis by auto
  next
    case (recreate_failed img h1 h3 e)
    from recreate_failed(4) have "Call_ImagePull (imageWithTag img ''latest'')
        (pullOptions a (img_Os (fst (ImageInspectWithRaw cli h1 (c_ImageID c))) @ ''/''
            @ img_Architecture (fst (ImageInspectWithRaw cli h1 (c_ImageID c))))) \<in> set h3"
      by (subst (asm) tags) (rule tagsLoop_first_pull)
    moreover have "prefix h3 h'" using recreate_failed(5) by (rule recreate_prefix)
    ultimately show ?thesis using recreate_failed(2,6) by auto
  next
    case (updated img h1 h3 h4)
    let ?n = "notify url (''Successfully updated '' @ strings_TrimPrefix (hd (c_Names c)) ''/'') h4"
    from updated(4) have "Call_ImagePull (imageWithTag img ''latest'')
        (pullOptions a (img_Os (fst (ImageInspectWithRaw cli h1 (c_ImageID c))) @ ''/''
            @ img_Architecture (fst (ImageInspectWithRaw cli h1 (c_ImageID c))))) \<in> set h3"
      by (subst (asm) tags) (rule tagsLoop_first_pull)
    moreover have "prefix h3 h'"
    proof -
      have "prefix h3 h4" using updated(5) by (rule recreate_prefix)
      also have "prefix h4 ?n" by (rule notify_prefix)
      also have "prefix ?n h'" unfolding updated(8) by (simp add: prune_prefix)
      finally show ?thesis .
    qed
    ultimately show ?thesis using updated(2,6) by auto
  qed
  then show "r = Return ()"
    and "\<exists>hh opts. Call_ImagePull (imageWithTag (fst (resolveDigest cli c hh)) ''latest'') opts
           \<in> set h'"
    using set_mono_prefix by blast+
qed

lemma containerBody_returns:
  assumes "containerBody parse cli fl rt a url c u h = (r, u', h')" and "c_Names c \<noteq> []"
  shows "r = Return ()"
  using assms(1)
proof (cases rule: containerBody_cases)
  case panic
  with assms(2) show ?thesis by simp
qed simp_all

lemma containersLoop_pulls:
  assumes names: "\<forall>c\<in>set cs. c_Names c \<noteq> []"
    and run: "containersLoop parse cli fl rt a url cs u h = (r, u', h')"
  shows "\<forall>c\<in>set cs. (\<forall>hh. snd (ImageInspectWithRaw cli hh (c_ImageID c)) = None) \<longrightarrow>
           (\<exists>hh opts. Call_ImagePull (imageWithTag (fst (resolveDigest cli c hh)) ''latest'') opts
              \<in> set h')"
  using assms
proof (induction cs arbitrary: u h)
  case Nil
  then show ?case by simp
next
  case (Cons c cs)
  obtain r1 u1 h1 where b: "containerBody parse cli fl rt a url c u h = (r1, u1, h1)"
    by (cases "containerBody parse cli fl rt a url c u h") auto
  have n: "c_Names c \<noteq> []" using Cons.prems(1) by simp
  have r1: "r1 = Return ()" using b n by (rule containerBody_returns)
  from Cons.prems(2) b r1
  have rest: "containersLoop parse cli fl rt a url cs u1 h1 = (r, u', h')" by simp
  have p: "prefix h1 h'" using rest by (rule containersLoop_prefix)
  have here: "\<exists>hh opts.
      Call_ImagePull (imageWithTag (fst (resolveDigest cli c hh)) ''latest'') opts \<in> set h'"
    if i: "\<forall>hh. snd (ImageInspectWithRaw cli hh (c_ImageID c)) = None"
  proof -
    from i have "\<And>hh. snd (ImageInspectWithRaw cli hh (c_ImageID c)) = None" by simp
    from containerBody_pulls(2) [OF b n this] p show ?thesis
      using set_mono_prefix by blast
  qed
  have "\<forall>c\<in>set cs. (\<forall>hh. snd (ImageInspectWithRaw cli hh (c_ImageID c)) = None) \<longrightarrow>
      (\<exists>hh opts. Call_ImagePull (imageWithTag (fst (resolveDigest cli c hh)) ''latest'') opts
         \<in> set h')"
    using Cons.IH [OF _ rest] Cons.prems(1) by simp
  with here show ?case by simp
qed

lemma containersLoop_inspection_failed:
  assumes n: "c_Names c \<noteq> []"
    and f: "snd (ImageInspectWithRaw cli (snd (resolveDigest cli c h)) (c_ImageID c)) = Some e"
  shows "containersLoop parse cli fl rt a url (c # cs) u h
         = containersLoop parse cli fl rt a url cs u
             (snd (resolveDigest cli c h) @ [Call_ImageInspectWithRaw (c_ImageID c)])"
    and "pulledImages (snd (resolveDigest cli c h) @ [Call_ImageInspectWithRaw (c_ImageID c)])
         = pulledImages h"
proof -
  obtain img h1 where rd: "resolveDigest cli c h = (img, h1)" by (cases "resolveDigest cli c h")
  obtain ii where ins: "ImageInspectWithRaw cli h1 (c_ImageID c) = (ii, Some e)"
    using f rd by (cases "ImageInspectWithRaw cli h1 (c_ImageID c)") auto
  from n obtain name0 names where nm: "c_Names c = name0 # names" by (cases "c_Names c") auto
  have "containerBody parse cli fl rt a url c u h
        = (Return (), u, h1 @ [Call_ImageInspectWithRaw (c_ImageID c)])"
    using nm rd ins by (simp add: containerBody_def Let_def)
  with rd show "containersLoop parse cli fl rt a url (c # cs) u h
         = containersLoop parse cli fl rt a url cs u
             (snd (resolveDigest cli c h) @ [Call_ImageInspectWithRaw (c_ImageID c)])"
    by simp
  from resolveDigest_obs(1) [OF rd] rd
  show "pulledImages (snd (resolveDigest cli c h) @ [Call_ImageInspectWithRaw (c_ImageID c)])
         = pulledImages h"
    by (simp add: pulledImages_append)
qed

lemma containerBody_main_go_pulls:
  assumes run: "containerBody_main_go cli fuel fl [] a url c u h = Some (r, u', h')"
    and names: "c_Names c \<noteq> []"
    and insp: "\<And>hh. snd (ImageInspectWithRaw cli hh (c_ImageID c)) = None"
  shows "r = Return ()" and "\<exists>opts. Call_ImagePull (c_Image c) opts \<in> set h'"
proof -
  have "r = Return () \<and> (\<exists>opts. Call_ImagePull (c_Image c) opts \<in> set h')"
    using run
  proof (cases rule: containerBody_main_go_cases)
    case panic
    with names show ?thesis by simp
  next
    case skipped
    then show ?thesis by (simp add: strings_Contains_empty)
  next
    case (inspect_failed e)
    with insp show ?thesis by simp
  next
    case (not_restarted pr h2)
    note m = pull_main_go_obs(3) [OF not_restarted(4)]
    from not_restarted(7) have "prefix h2 h'" by (auto simp add: notify_def)
    with m not_restarted(5) show ?thesis using set_mono_prefix by blast
  next
    case (updated h2)
    note m = pull_main_go_obs(3) [OF updated(4)]
    have "prefix h2 h'"
      unfolding updated(8)
      by (simp add: notify_def pruneImages_def split: option.splits)
    with m updated(6) show ?thesis using set_mono_prefix by blast
  qed
  then show "r = Return ()" and "\<exists>opts. Call_ImagePull (c_Image c) opts \<in> set h'"
    by simp_all
qed

lemma containerBody_main_go_returns:
  assumes "containerBody_main_go cli fuel fl registryURL a url c u h = Some (r, u', h')"
    and "c_Names c \<noteq> []"
  shows "r = Return ()"
  using assms(1)
proof (cases rule: containerBody_main_go_cases)
  case panic
  with assms(2) show ?thesis by simp
qed simp_all

lemma containersLoop_main_go_pulls:
  assumes names: "\<forall>c\<in>set cs. c_Names c \<noteq> []"
    and run: "containersLoop_main_go cli fuel fl [] a url cs u h = Some (r, u', h')"
  shows "\<forall>c\<in>set cs. (\<forall>hh. snd (ImageInspectWithRaw cli hh (c_ImageID c)) = None) \<longrightarrow>
           (\<exists>opts. Call_ImagePull (c_Image c) opts \<in> set h')"
  using assms
proof (induction cs arbitrary: u h)
  case Nil
  then show ?case by simp
next
  case (Cons c cs)
  from Cons.prems(2) obtain r1 u1 h1 where
    b: "containerBody_main_go cli fuel fl [] a url c u h = Some (r1, u1, h1)"
    by (cases "containerBody_main_go cli fuel fl [] a url c u h") auto
  have n: "c_Names c \<noteq> []" using Cons.prems(1) by simp
  have r1: "r1 = Return ()" using b n by (rule containerBody_main_go_returns)
  from Cons.prems(2) b r1
  have rest: "containersLoop_main_go cli fuel fl [] a url cs u1 h1 = Some (r, u', h')" by simp
  have p: "prefix h1 h'" using rest by (rule containersLoop_main_go_prefix)
  have here: "\<exists>opts. Call_ImagePull (c_Image c) opts \<in> set h'"
    if i: "\<forall>hh. snd (ImageInspectWithRaw cli hh (c_ImageID c)) = None"
  proof -
    from i have "\<And>hh. snd (ImageInspectWithRaw cli hh (c_ImageID c)) = None" by simp
    from containerBody_main_go_pulls(2) [OF b n this] p show ?thesis
      using set_mono_prefix by blast
  qed
  have "\<forall>c\<in>set cs. (\<forall>hh. snd (ImageInspectWithRaw cli hh (c_ImageID c)) = None) \<longrightarrow>
      (\<exists>opts. Call_ImagePull (c_Image c) opts \<in> set h')"
    using Cons.IH [OF _ rest] Cons.prems(1) by simp
  with here show ?case by simp
qed

lemma containersLoop_main_go_inspection_failed:
  assumes n: "c_Names c \<noteq> []"
    and f: "snd (ImageInspectWithRaw cli h (c_ImageID c)) = Some e"
  shows "containersLoop_main_go cli fuel fl [] a url (c # cs) u h
         = containersLoop_main_go cli fuel fl [] a url cs u
             (h @ [Call_ImageInspectWithRaw (c_ImageID c)])"
proof -
  obtain ii where ins: "ImageInspectWithRaw cli h (c_ImageID c) = (ii, Some e)"
    using f by (cases "ImageInspectWithRaw cli h (c_ImageID c)") auto
  from n obtain name0 names where nm: "c_Names c = name0 # names" by (cases "c_Names c") auto
  have "containerBody_main_go cli fuel fl [] a url c u h
        = Some (Return (), u, h @ [Call_ImageInspectWithRaw (c_ImageID c)])"
    using nm ins by (simp add: containerBody_main_go_def Let_def strings_Contains_empty)
  then show ?thesis by simp
qed

subsection \<open>The requests of a recreation\<close>



subsection \<open>A runtime that never has a matching manifest\<close>

lemma ex_no_manifest_matches:
  "strings_Contains ''no matching manifest for linux/arm64 in the manifest list entries''
     ''no matching manifest''"
  by code_simp

lemma pullLoop_main_go_never:
  "pullLoop_main_go ex_cli_never fuel img a ex_no_manifest b h = None"
proof (induction fuel arbitrary: h)
  case 0
  show ?case by (simp add: ex_no_manifest_def ex_no_manifest_matches)
next
  case (Suc fuel)
  have p: "\<And>hh opts. ImagePull ex_cli_never hh img opts = Inr ex_no_manifest"
    by (simp add: ex_cli_never_def)
  have "pullLoop_main_go ex_cli_never (Suc fuel) img a ex_no_manifest b h =
        pullLoop_main_go ex_cli_never fuel img a ex_no_manifest b
          (h @ [Call_ImagePull img \<lparr>opt_RegistryAuth = encodeAuth a,
                                     opt_Platform = ''linux/amd64''\<rparr>])"
    by (subst ex_no_manifest_def) (simp add: ex_no_manifest_matches p Let_def)
  with Suc.IH show ?case by simp
qed

section \<open>The properties of the specification\<close>

text \<open>
  C1. When the pull and the inspection of the pulled image succeed, the identity of the
  pulled image differs from the current one, and both creation timestamps are present
  and parse, \<open>pullImageAndCheckUpdate\<close> of \<open>README.md\<close> reports an update exactly when
  the pulled image was created strictly later than the current one; a timestamp that is
  equal or earlier reports no update.
\<close>

theorem C1_update_iff_remote_strictly_later:
  assumes pull: "ImagePull cli h img (pullOptions authConfig platform) = Inr resp"
    and new: "ImageInspectWithRaw cli (h @ [Call_ImagePull img (pullOptions authConfig platform)])
                img = (newImg, None)"
    and cur: "fst (ImageInspectWithRaw cli
                (h @ [Call_ImagePull img (pullOptions authConfig platform),
                      Call_ImageInspectWithRaw img]) currentImgID) = localImg"
    and ident: "img_ID newImg \<noteq> currentImgID"
    and present: "img_Created localImg \<noteq> []" "img_Created newImg \<noteq> []"
    and parsed: "parse (img_Created localImg) = Some localTime"
                "parse (img_Created newImg) = Some remoteTime"
  shows "fst (pullImageAndCheckUpdate parse cli img authConfig platform name notificationURL
                currentImgID h) = Inr (localTime < remoteTime)"
  using assms by (simp add: pullImageAndCheckUpdate_def Let_def)

theorem C1_witness:
  "img_ID (ex_image ''sha256:a2'' ''registry.example.com/app:latest'' ''2024-06-01T00:00:00Z'')
     \<noteq> ''sha256:a1''
   \<and> ex_parse ''2024-01-01T00:00:00Z'' = Some 1704067200000000000
   \<and> ex_parse ''2024-06-01T00:00:00Z'' = Some 1717200000000000000
   \<and> fst (pullImageAndCheckUpdate ex_parse ex_cli ''registry.example.com/app:latest''
            (authConfigOf ''registry.example.com'' ''bob'' ''pw'') ''linux/amd64'' ''app'' []
            ''sha256:a1'' []) = Inr True"
  using C1_update_iff_remote_strictly_later
    [where cli = ex_cli and h = "[]" and img = "''registry.example.com/app:latest''"
       and authConfig = "authConfigOf ''registry.example.com'' ''bob'' ''pw''"
       and platform = "''linux/amd64''" and parse = ex_parse and name = "''app''"
       and notificationURL = "[]" and currentImgID = "''sha256:a1''"
       and resp = "[Decoded ''Status: Downloaded newer image'' []]"
       and newImg = "ex_image ''sha256:a2'' ''registry.example.com/app:latest''
                       ''2024-06-01T00:00:00Z''"
       and localImg = "ex_image ''sha256:a1'' ''registry.example.com/app:latest''
                       ''2024-01-01T00:00:00Z''"
       and localTime = 1704067200000000000 and remoteTime = 1717200000000000000]
  by (simp add: ex_cli_def ex_images_def ex_image_def ex_parse_def)

text \<open>
  C2. When the pull and the inspection of the pulled image succeed, and the two images
  have the same identity, or a creation timestamp is empty or does not parse,
  \<open>pullImageAndCheckUpdate\<close> of \<open>README.md\<close> returns no update and no error. A failed
  inspection of the current image counts as a missing timestamp only through the image
  it returns.
\<close>

theorem C2_no_update_without_comparable_images:
  assumes pull: "ImagePull cli h img (pullOptions authConfig platform) = Inr resp"
    and new: "ImageInspectWithRaw cli (h @ [Call_ImagePull img (pullOptions authConfig platform)])
                img = (newImg, None)"
    and cur: "fst (ImageInspectWithRaw cli
                (h @ [Call_ImagePull img (pullOptions authConfig platform),
                      Call_ImageInspectWithRaw img]) currentImgID) = localImg"
    and cases: "img_ID newImg = currentImgID
                \<or> img_Created localImg = [] \<or> img_Created newImg = []
                \<or> parse (img_Created localImg) = None \<or> parse (img_Created newImg) = None"
  shows "fst (pullImageAndCheckUpdate parse cli img authConfig platform name notificationURL
                currentImgID h) = Inr False"
  using assms by (auto simp add: pullImageAndCheckUpdate_def Let_def split: option.splits)

theorem C2_witness:
  "img_ID (ex_image ''sha256:w1'' ''registry.example.com/web:latest'' ''2024-01-01T00:00:00Z'')
     = ''sha256:w1''
   \<and> fst (pullImageAndCheckUpdate ex_parse ex_cli ''registry.example.com/web:latest''
            (authConfigOf ''registry.example.com'' ''bob'' ''pw'') ''linux/amd64'' ''web'' []
            ''sha256:w1'' []) = Inr False"
  using C2_no_update_without_comparable_images
    [where cli = ex_cli and h = "[]" and img = "''registry.example.com/web:latest''"
       and authConfig = "authConfigOf ''registry.example.com'' ''bob'' ''pw''"
       and platform = "''linux/amd64''" and parse = ex_parse and name = "''web''"
       and notificationURL = "[]" and currentImgID = "''sha256:w1''"
       and resp = "[Decoded ''Status: Downloaded newer image'' []]"
       and newImg = "ex_image ''sha256:w1'' ''registry.example.com/web:latest''
                       ''2024-01-01T00:00:00Z''"
       and localImg = "ex_image ''sha256:w1'' ''registry.example.com/web:latest''
                       ''2024-01-01T00:00:00Z''"]
  by (simp add: ex_cli_def ex_images_def ex_image_def)

text \<open>
  C3. In \<open>main.go\<close> an error item with \<open>no matching manifest\<close> in the pull response is
  answered by a pull for \<open>linux/amd64\<close>, and the loop goes on reading the new response
  with the same test, so the fallback is pulled again for every such item it meets.
  With a runtime that answers every pull with that error the function never returns,
  whatever the fuel; with one that answers so twice, the fallback platform is pulled
  twice.
\<close>

theorem C3_fallback_retry_is_not_bounded:
  "(\<forall>fuel. pullImageAndCheckUpdate_main_go ex_cli_never fuel ''registry.example.com/app:latest''
              \<lparr>auth_Username = ''bob'', auth_Password = ''pw'',
               auth_ServerAddress = ''registry.example.com''\<rparr>
              ''linux/arm64'' ''/app'' [] [] = None)
   \<and> map_option (\<lambda>(r, h). (r, pulledPlatforms h))
         (pullImageAndCheckUpdate_main_go (ex_cli_retry 2) 2 ''registry.example.com/app:latest''
            \<lparr>auth_Username = ''bob'', auth_Password = ''pw'',
             auth_ServerAddress = ''registry.example.com''\<rparr>
            ''linux/arm64'' ''/app'' [] [])
       = Some (Inr True, [''linux/arm64'', ''linux/amd64'', ''linux/amd64''])"
proof -
  have "\<And>fuel img a pl n url h.
      pullImageAndCheckUpdate_main_go ex_cli_never fuel img a pl n url h = None"
    by (simp add: pullImageAndCheckUpdate_main_go_def Let_def ex_cli_never_def
        pullLoop_main_go_never [unfolded ex_cli_never_def])
  moreover have "map_option (\<lambda>(r, h). (r, pulledPlatforms h))
         (pullImageAndCheckUpdate_main_go (ex_cli_retry 2) 2 ''registry.example.com/app:latest''
            \<lparr>auth_Username = ''bob'', auth_Password = ''pw'',
             auth_ServerAddress = ''registry.example.com''\<rparr>
            ''linux/arm64'' ''/app'' [] [])
       = Some (Inr True, [''linux/arm64'', ''linux/amd64'', ''linux/amd64''])"
    by code_simp
  ultimately show ?thesis by blast
qed

text \<open>
  C4, as the code has it. The plan is \<open>latest\<close>, followed by the configured secondary
  tag when there is one. For a reference \<open>repo\<close> or \<open>repo:oldTag\<close>, with no colon in
  \<open>repo\<close>, the reference pulled for a tag of the plan is \<open>repo\<close>, a colon and that tag:
  a tag that the reference carries is replaced, not kept. The references pulled for a
  container are the plan's, in order, up to the first one with an update, and \<open>latest\<close>
  is always pulled. A reference with a colon before its tag (a registry port, a digest)
  is outside this statement.
\<close>

theorem C4_primary_tag_is_latest:
  "tagsToCheck registryTag = ''latest'' # (if registryTag = [] then [] else [registryTag])
   \<and> (CHR '':'' \<notin> set repo \<longrightarrow>
        imageWithTag repo tag = repo @ '':'' @ tag
        \<and> imageWithTag (repo @ '':'' @ oldTag) tag = repo @ '':'' @ tag)
   \<and> (\<exists>k. 1 \<le> k
          \<and> pulledImages (snd (tagsLoop parse cli registryTag img authConfig platform name
                                 notificationURL currentImgID (tagsToCheck registryTag) h))
              = pulledImages h @ take k (map (imageWithTag img) (tagsToCheck registryTag)))"
proof -
  obtain b h' where run: "tagsLoop parse cli registryTag img authConfig platform name
      notificationURL currentImgID (tagsToCheck registryTag) h = (b, h')"
    by (cases "tagsLoop parse cli registryTag img authConfig platform name
      notificationURL currentImgID (tagsToCheck registryTag) h")
  have ne: "tagsToCheck registryTag \<noteq> []" by (simp add: tagsToCheck_def)
  from tagsLoop_pulled [OF run] ne obtain k where
    "1 \<le> k" "pulledImages h' = pulledImages h
       @ take k (map (imageWithTag img) (tagsToCheck registryTag))" by blast
  with run have pulled: "\<exists>k. 1 \<le> k
          \<and> pulledImages (snd (tagsLoop parse cli registryTag img authConfig platform name
                                 notificationURL currentImgID (tagsToCheck registryTag) h))
              = pulledImages h @ take k (map (imageWithTag img) (tagsToCheck registryTag))"
    by auto
  have plan: "tagsToCheck registryTag
      = ''latest'' # (if registryTag = [] then [] else [registryTag])"
    by (simp add: tagsToCheck_def)
  have refs: "imageWithTag repo tag = repo @ '':'' @ tag
        \<and> imageWithTag (repo @ '':'' @ oldTag) tag = repo @ '':'' @ tag"
    if "CHR '':'' \<notin> set repo"
  proof -
    from that have all: "\<forall>c\<in>set repo. c \<noteq> CHR '':''" by auto
    then have "takeWhile (\<lambda>c. c \<noteq> CHR '':'') repo = repo"
      by (intro takeWhile_eq_all_conv [THEN iffD2])
    moreover from all have "takeWhile (\<lambda>c. c \<noteq> CHR '':'') (repo @ '':'' @ oldTag) = repo"
      by (simp add: takeWhile_append)
    ultimately show ?thesis by (simp only: imageWithTag_takeWhile)
  qed
  from plan refs pulled show ?thesis by blast
qed

theorem C4_witness:
  "CHR '':'' \<notin> set ''registry.example.com/api''
   \<and> tagsToCheck ''canary'' = [''latest'', ''canary'']
   \<and> imageWithTag ''registry.example.com/api:v1'' ''latest'' = ''registry.example.com/api:latest''"
  using C4_primary_tag_is_latest [of "''canary''" "''registry.example.com/api''" "''latest''"
      "''v1''" ex_parse ex_cli "''registry.example.com/api:v1''"
      "authConfigOf ''registry.example.com'' ''bob'' ''pw''" "''linux/amd64''"
      "''api''" "[]" "''sha256:p1''" "[]"]
  by simp

theorem C4_counterexample:
  "c_Image ex_api = ''registry.example.com/api:v1''
   \<and> pulledImages (snd (snd (checkContainers ex_parse (ex_cli_with [ex_api]) (ex_flags False)
        ''registry.example.com'' ''bob'' ''pw'' [] [] [])))
     = [''registry.example.com/api:latest'']"
  by code_simp

text \<open>
  C5, as the code has it. In both programs the prune is requested inside the loop over
  the containers, once after each container that was updated: with cleanup on, the
  number of prune requests of a tick is the number of updated containers, and with
  cleanup off it is zero. For \<open>main.go\<close> this is about a tick that returns.
\<close>

theorem C5_one_prune_for_each_updated_container:
  "prunes (snd (snd (checkContainers parse cli fl registryURL user pass registryTag url h)))
     = prunes h + (if cleanup fl
                   then fst (snd (checkContainers parse cli fl registryURL user pass
                                    registryTag url h))
                   else 0)
   \<and> (checkContainers_main_go cli fuel fl registryURL user pass url h = Some (r, u, h')
        \<longrightarrow> prunes h' = prunes h + (if cleanup fl then u else 0))"
proof
  let ?filt = "if labelEnable fl then Some (enableLabel @ ''=true'') else None"
  show "prunes (snd (snd (checkContainers parse cli fl registryURL user pass registryTag url h)))
     = prunes h + (if cleanup fl
                   then fst (snd (checkContainers parse cli fl registryURL user pass
                                    registryTag url h))
                   else 0)"
  proof (cases "ContainerList cli h True ?filt")
    case (Inl e)
    then show ?thesis by (simp add: checkContainers_def Let_def obs_simps)
  next
    case (Inr cs)
    obtain k h2 where el: "eligibleContainers cli registryURL user cs 0
        (h @ [Call_ContainerList True ?filt]) = (k, h2)"
      by (cases "eligibleContainers cli registryURL user cs 0 (h @ [Call_ContainerList True ?filt])")
    have h2: "prunes h2 = prunes h"
      using eligibleContainers_obs [OF el] by (simp add: obs_simps)
    obtain r1 u1 h3 where lp: "containersLoop parse cli fl registryTag
        (authConfigOf registryURL user pass) url cs 0 h2 = (r1, u1, h3)"
      by (cases "containersLoop parse cli fl registryTag
        (authConfigOf registryURL user pass) url cs 0 h2") auto
    have h3: "prunes h3 = prunes h2 + (if cleanup fl then u1 else 0)"
      using containersLoop_prunes [OF lp] by simp
    show ?thesis
      using Inr el lp h2 h3
      by (cases r1) (simp_all add: checkContainers_def Let_def)
  qed
next
  let ?filt = "if labelEnable fl then Some enableLabel else None"
  let ?a = "\<lparr>auth_Username = user, auth_Password = pass, auth_ServerAddress = registryURL\<rparr>"
  show "checkContainers_main_go cli fuel fl registryURL user pass url h = Some (r, u, h')
        \<longrightarrow> prunes h' = prunes h + (if cleanup fl then u else 0)"
  proof
    assume run: "checkContainers_main_go cli fuel fl registryURL user pass url h = Some (r, u, h')"
    show "prunes h' = prunes h + (if cleanup fl then u else 0)"
    proof (cases "ContainerList cli h True ?filt")
      case (Inl e)
      with run show ?thesis by (auto simp add: checkContainers_main_go_def Let_def obs_simps)
    next
      case (Inr cs)
      show ?thesis
      proof (cases "eligibleContainers_main_go registryURL cs 0 = 0")
        case True
        with run Inr show ?thesis
          by (auto simp add: checkContainers_main_go_def Let_def obs_simps)
      next
        case False
        with run Inr obtain r1 where lp: "containersLoop_main_go cli fuel fl registryURL ?a url
            cs 0 (h @ [Call_ContainerList True ?filt]) = Some (r1, u, h')"
          by (auto simp add: checkContainers_main_go_def Let_def
              split: option.splits outcome.splits)
        from containersLoop_main_go_prunes [OF lp] show ?thesis by (simp add: obs_simps)
      qed
    qed
  qed
qed

theorem C5_witness:
  "fst (snd (checkContainers ex_parse (ex_cli_with [ex_app, ex_api]) (ex_flags True)
        ''registry.example.com'' ''bob'' ''pw'' [] ''http://hook'' [])) = 2
   \<and> prunes (snd (snd (checkContainers ex_parse (ex_cli_with [ex_app, ex_api]) (ex_flags True)
        ''registry.example.com'' ''bob'' ''pw'' [] ''http://hook'' []))) = 2
   \<and> fst (snd (the (checkContainers_main_go (ex_cli_with [ex_app, ex_api]) 1 (ex_flags True)
        ''registry.example.com'' ''bob'' ''pw'' ''http://hook'' []))) = 2
   \<and> prunes (snd (snd (the (checkContainers_main_go (ex_cli_with [ex_app, ex_api]) 1
        (ex_flags True) ''registry.example.com'' ''bob'' ''pw'' ''http://hook'' [])))) = 2"
proof -
  let ?R = "checkContainers ex_parse (ex_cli_with [ex_app, ex_api]) (ex_flags True)
        ''registry.example.com'' ''bob'' ''pw'' [] ''http://hook'' []"
  let ?M = "checkContainers_main_go (ex_cli_with [ex_app, ex_api]) 1 (ex_flags True)
        ''registry.example.com'' ''bob'' ''pw'' ''http://hook'' []"
  have u: "fst (snd ?R) = 2" by code_simp
  have some: "?M \<noteq> None" by code_simp
  have um: "fst (snd (the ?M)) = 2" by code_simp
  from some obtain r u h' where m: "?M = Some (r, u, h')" by (cases ?M) auto
  note t = C5_one_prune_for_each_updated_container
    [of ex_parse "ex_cli_with [ex_app, ex_api]" "ex_flags True" "''registry.example.com''"
       "''bob''" "''pw''" "[]" "''http://hook''" "[]" 1 r u h']
  from t u have "prunes (snd (snd ?R)) = 2" by (simp add: ex_flags_def prunes_def)
  moreover from t m um have "prunes (snd (snd (the ?M))) = 2"
    by (simp add: ex_flags_def prunes_def)
  ultimately show ?thesis using u um by blast
qed

theorem C5_counterexample:
  "strings_Contains (c_Image ex_app) ''registry.example.com''
   \<and> strings_Contains (c_Image ex_api) ''registry.example.com''
   \<and> prunes (snd (snd (checkContainers ex_parse (ex_cli_with [ex_app, ex_api]) (ex_flags True)
        ''registry.example.com'' ''bob'' ''pw'' [] ''http://hook'' []))) = 2
   \<and> map_option (\<lambda>(r, u, h). prunes h)
        (checkContainers_main_go (ex_cli_with [ex_app, ex_api]) 1 (ex_flags True)
           ''registry.example.com'' ''bob'' ''pw'' ''http://hook'' []) = Some 2"
  by code_simp

text \<open>
  C6. The loop over the containers in \<open>README.md\<close> has no test of the registry: the
  match is only counted before the loop. With one container of the registry and one
  foreign container (\<open>redis:7\<close>, which matches neither the registry host nor the user
  name), the foreign container is pulled, recreated and notified like the other one.
\<close>

theorem C6_foreign_container_is_pulled_and_recreated:
  "\<not> strings_Contains (c_Image ex_redis) ''registry.example.com''
   \<and> \<not> strings_Contains (c_Image ex_redis) ''bob''
   \<and> pulledImages (snd (snd (checkContainers ex_parse ex_cli (ex_flags False)
        ''registry.example.com'' ''bob'' ''pw'' [] ''http://hook'' [])))
       = [''registry.example.com/app:latest'', ''redis:latest'']
   \<and> createdImages (snd (snd (checkContainers ex_parse ex_cli (ex_flags False)
        ''registry.example.com'' ''bob'' ''pw'' [] ''http://hook'' [])))
       = [''registry.example.com/app:latest'', ''redis:7'']
   \<and> notifications (snd (snd (checkContainers ex_parse ex_cli (ex_flags False)
        ''registry.example.com'' ''bob'' ''pw'' [] ''http://hook'' [])))
       = [''Successfully updated app'', ''Successfully updated redis'']
   \<and> fst (snd (checkContainers ex_parse ex_cli (ex_flags False)
        ''registry.example.com'' ''bob'' ''pw'' [] ''http://hook'' [])) = 2"
  by code_simp

text \<open>
  The loop of \<open>main.go\<close> does test the registry: there a container whose reference does
  not contain the registry URL is left alone, and on the same two containers only the
  one of the registry is pulled and notified.
\<close>

lemma main_go_skips_foreign_container:
  "c_Names c \<noteq> [] \<Longrightarrow> \<not> strings_Contains (c_Image c) registryURL \<Longrightarrow>
   containerBody_main_go cli fuel fl registryURL a url c u h = Some (Return (), u, h)"
  by (cases "c_Names c") (simp_all add: containerBody_main_go_def)

lemma main_go_same_containers:
  "map_option (\<lambda>(r, u, h). (u, pulledImages h, notifications h))
     (checkContainers_main_go ex_cli 1 (ex_flags False) ''registry.example.com'' ''bob'' ''pw''
        ''http://hook'' [])
   = Some (1, [''registry.example.com/app:latest''], [''Successfully updated /app''])"
  by code_simp



text \<open>
  C8. A recreation that succeeds sends, in this order, the inspection, the stop, the
  removal, a creation whose configuration, host configuration and network endpoints are
  those of the inspection, unchanged, under the name it was given, and the start of the
  container that the creation returned. The name, environment, mounts and network
  settings are therefore the old ones; but so is the image reference, which the program
  never replaces by the reference it pulled. A container configured on \<open>api:v1\<close> whose
  update was found on \<open>api:latest\<close> is recreated on \<open>api:v1\<close>, reported as updated, and
  recreated again at every tick.
\<close>

theorem C8_recreate_replays_snapshot:
  assumes "recreateContainer cli containerID name notificationURL h = (None, h')"
  shows "\<exists>snapshot newID.
           ContainerInspect cli h containerID = Inr snapshot
           \<and> ContainerCreate cli
                (h @ [Call_ContainerInspect containerID, Call_ContainerStop containerID 10,
                      Call_ContainerRemove containerID])
                (cj_Config snapshot) (cj_HostConfig snapshot) (cj_Networks snapshot) name
                = Inr newID
           \<and> h' = h @ [Call_ContainerInspect containerID,
                        Call_ContainerStop containerID 10,
                        Call_ContainerRemove containerID,
                        Call_ContainerCreate (cj_Config snapshot) (cj_HostConfig snapshot)
                          (cj_Networks snapshot) name,
                        Call_ContainerStart newID]"
  using assms
  by (auto simp add: recreateContainer_def Let_def split: sum.splits option.splits)

theorem C8_witness:
  "recreateContainer (ex_cli_with [ex_api]) ''c3'' ''api'' ''http://hook'' []
     = (None,
        [Call_ContainerInspect ''c3'', Call_ContainerStop ''c3'' 10, Call_ContainerRemove ''c3'',
         Call_ContainerCreate (cj_Config (ex_snapshot ''c3'')) (cj_HostConfig (ex_snapshot ''c3''))
           (cj_Networks (ex_snapshot ''c3'')) ''api'',
         Call_ContainerStart ''new-api''])
   \<and> cfg_Image (cj_Config (ex_snapshot ''c3'')) = ''registry.example.com/api:v1''
   \<and> pulledImages (snd (snd (checkContainers ex_parse (ex_cli_with [ex_api]) (ex_flags False)
        ''registry.example.com'' ''bob'' ''pw'' [] ''http://hook'' [])))
       = [''registry.example.com/api:latest'']
   \<and> createdImages (snd (snd (checkContainers ex_parse (ex_cli_with [ex_api]) (ex_flags False)
        ''registry.example.com'' ''bob'' ''pw'' [] ''http://hook'' [])))
       = [''registry.example.com/api:v1'']
   \<and> notifications (snd (snd (checkContainers ex_parse (ex_cli_with [ex_api]) (ex_flags False)
        ''registry.example.com'' ''bob'' ''pw'' [] ''http://hook'' [])))
       = [''Successfully updated api'']
   \<and> createdImages (historyOf (main ex_parse ex_env (Inr (ex_cli_with [ex_api]))
        (ex_flags False) 2))
       = [''registry.example.com/api:v1'', ''registry.example.com/api:v1'',
          ''registry.example.com/api:v1'']
   \<and> notifications (historyOf (main ex_parse ex_env (Inr (ex_cli_with [ex_api]))
        (ex_flags False) 2))
       = [''Successfully updated api'', ''Successfully updated api'',
          ''Successfully updated api'']"
proof -
  let ?cli = "ex_cli_with [ex_api]"
  let ?R = "recreateContainer ?cli ''c3'' ''api'' ''http://hook'' []"
  have ok: "fst ?R = None"
    by (simp add: recreateContainer_def Let_def ex_cli_with_def ex_cli_def)
  then have run: "?R = (None, snd ?R)" by (simp add: prod_eq_iff)
  have insp: "ContainerInspect ?cli [] ''c3'' = Inr (ex_snapshot ''c3'')"
    by (simp add: ex_cli_with_def ex_cli_def)
  have create: "\<And>hh cfg hc nets. ContainerCreate ?cli hh cfg hc nets ''api'' = Inr ''new-api''"
    by (simp add: ex_cli_with_def ex_cli_def)
  from C8_recreate_replays_snapshot [OF run] insp create
  have "snd ?R = [Call_ContainerInspect ''c3'', Call_ContainerStop ''c3'' 10,
         Call_ContainerRemove ''c3'',
         Call_ContainerCreate (cj_Config (ex_snapshot ''c3'')) (cj_HostConfig (ex_snapshot ''c3''))
           (cj_Networks (ex_snapshot ''c3'')) ''api'',
         Call_ContainerStart ''new-api'']"
    by auto
  with run have first: "?R = (None,
        [Call_ContainerInspect ''c3'', Call_ContainerStop ''c3'' 10, Call_ContainerRemove ''c3'',
         Call_ContainerCreate (cj_Config (ex_snapshot ''c3'')) (cj_HostConfig (ex_snapshot ''c3''))
           (cj_Networks (ex_snapshot ''c3'')) ''api'',
         Call_ContainerStart ''new-api''])"
    by simp
  have old: "cfg_Image (cj_Config (ex_snapshot ''c3'')) = ''registry.example.com/api:v1''"
    by (simp add: ex_snapshot_def)
  have tick: "pulledImages (snd (snd (checkContainers ex_parse ?cli (ex_flags False)
        ''registry.example.com'' ''bob'' ''pw'' [] ''http://hook'' [])))
       = [''registry.example.com/api:latest'']
     \<and> createdImages (snd (snd (checkContainers ex_parse ?cli (ex_flags False)
        ''registry.example.com'' ''bob'' ''pw'' [] ''http://hook'' [])))
       = [''registry.example.com/api:v1'']
     \<and> notifications (snd (snd (checkContainers ex_parse ?cli (ex_flags False)
        ''registry.example.com'' ''bob'' ''pw'' [] ''http://hook'' [])))
       = [''Successfully updated api'']"
    by code_simp
  have ticks: "createdImages (historyOf (main ex_parse ex_env (Inr ?cli) (ex_flags False) 2))
       = [''registry.example.com/api:v1'', ''registry.example.com/api:v1'',
          ''registry.example.com/api:v1'']
     \<and> notifications (historyOf (main ex_parse ex_env (Inr ?cli) (ex_flags False) 2))
       = [''Successfully updated api'', ''Successfully updated api'',
          ''Successfully updated api'']"
    by code_simp
  from first old tick ticks show ?thesis by blast
qed

text \<open>
  C9, as the code has it. The two programs differ. \<open>main\<close> of \<open>main.go\<close> ends the
  process at startup when the user name or the password is empty. \<open>main\<close> of
  \<open>README.md\<close> has no such test: once the client exists it never ends at startup, and
  with an empty user name or password every pull of the run goes without a credential.
\<close>

theorem C9_absent_credential:
  "getenv ''REGISTRY_USERNAME'' = [] \<or> getenv ''REGISTRY_PASSWORD'' = [] \<longrightarrow>
     main_main_go getenv newClient fuel fl ticks
       = Some (Fatal ''REGISTRY_USERNAME and REGISTRY_PASSWORD must be set'')
     \<and> (\<forall>m. main parse getenv (Inr cli) fl ticks \<noteq> Fatal m)
     \<and> anonymousPulls (historyOf (main parse getenv (Inr cli) fl ticks))"
proof
  assume absent: "getenv ''REGISTRY_USERNAME'' = [] \<or> getenv ''REGISTRY_PASSWORD'' = []"
  let ?url = "getenv ''REGISTRY_URL''" and ?user = "getenv ''REGISTRY_USERNAME''"
    and ?pass = "getenv ''REGISTRY_PASSWORD''" and ?tag = "getenv ''REGISTRY_TAG''"
    and ?hook = "getenv ''NOTIFICATION_URL''"
  have fatal: "main_main_go getenv newClient fuel fl ticks
       = Some (Fatal ''REGISTRY_USERNAME and REGISTRY_PASSWORD must be set'')"
    using absent by (simp add: main_main_go_def Let_def)
  obtain r u h1 where c: "checkContainers parse cli fl ?url ?user ?pass ?tag ?hook [] = (r, u, h1)"
    by (cases "checkContainers parse cli fl ?url ?user ?pass ?tag ?hook []") auto
  have h1: "anonymousPulls h1"
    using checkContainers_anonymous [OF absent, of parse cli fl ?url ?tag ?hook "[]"] c
    by (simp add: anonymousPulls_def)
  note loop = ticksLoop_anonymous [OF absent, of parse cli fl ?url ?tag ?hook ticks]
  have "(\<forall>m. main parse getenv (Inr cli) fl ticks \<noteq> Fatal m)
     \<and> anonymousPulls (historyOf (main parse getenv (Inr cli) fl ticks))"
  proof (cases r)
    case Panic
    with c h1 show ?thesis by (simp add: main_def Let_def)
  next
    case (Return e)
    show ?thesis
    proof (cases e)
      case None
      with Return c h1 loop [of h1] show ?thesis by (simp add: main_def Let_def)
    next
      case (Some m)
      with Return c h1 loop [of "notify ?hook (''Error in initial check: '' @ m) h1"]
      show ?thesis by (simp add: main_def Let_def notify_obs)
    qed
  qed
  with fatal show "main_main_go getenv newClient fuel fl ticks
       = Some (Fatal ''REGISTRY_USERNAME and REGISTRY_PASSWORD must be set'')
     \<and> (\<forall>m. main parse getenv (Inr cli) fl ticks \<noteq> Fatal m)
     \<and> anonymousPulls (historyOf (main parse getenv (Inr cli) fl ticks))"
    by simp
qed

theorem C9_witness:
  "main_main_go (\<lambda>v. if v = ''REGISTRY_URL'' then ''registry.example.com'' else [])
       (Inr ex_cli) 1 (ex_flags False) 1
     = Some (Fatal ''REGISTRY_USERNAME and REGISTRY_PASSWORD must be set'')
   \<and> pulledImages (historyOf (main ex_parse
         (\<lambda>v. if v = ''REGISTRY_URL'' then ''registry.example.com'' else [])
         (Inr ex_cli) (ex_flags False) 1))
       = [''registry.example.com/app:latest'', ''redis:latest'', ''registry.example.com/app:latest'',
          ''redis:latest'']
   \<and> anonymousPulls (historyOf (main ex_parse
         (\<lambda>v. if v = ''REGISTRY_URL'' then ''registry.example.com'' else [])
         (Inr ex_cli) (ex_flags False) 1))"
proof -
  let ?env = "\<lambda>v. if v = ''REGISTRY_URL'' then ''registry.example.com'' else []"
  have p: "pulledImages (historyOf (main ex_parse ?env (Inr ex_cli) (ex_flags False) 1))
       = [''registry.example.com/app:latest'', ''redis:latest'', ''registry.example.com/app:latest'',
          ''redis:latest'']"
    by code_simp
  from C9_absent_credential [of ?env "Inr ex_cli" 1 "ex_flags False" 1 ex_parse ex_cli] p
  show ?thesis by simp
qed

theorem C9_counterexample:
  "main_main_go (\<lambda>v. if v = ''REGISTRY_URL'' then ''registry.example.com'' else [])
       (Inr ex_cli) 1 (ex_flags False) 1
     = Some (Fatal ''REGISTRY_USERNAME and REGISTRY_PASSWORD must be set'')"
  by (simp add: main_main_go_def Let_def)

text \<open>
  C10, as the code has it. With an empty registry URL every listed container is counted
  as eligible, in both programs. In a list of containers that all have a name, each
  container whose image inspection succeeds is pulled, whatever the inspections of the
  other containers answer: for \<open>README.md\<close> the reference pulled is its resolved
  reference with the tag \<open>latest\<close>, for \<open>main.go\<close> its reference as listed, in a tick
  that returns. A container whose image inspection fails adds that inspection to the
  history and no pull, and the loop goes on with the rest of the list.
\<close>

theorem C10_empty_registry_url:
  assumes names: "\<forall>c\<in>set cs. c_Names c \<noteq> []"
  shows "fst (eligibleContainers cli [] user cs 0 h0) = length cs
    \<and> eligibleContainers_main_go [] cs 0 = length cs
    \<and> (ContainerList cli h True
          (if labelEnable fl then Some (enableLabel @ ''=true'') else None) = Inr cs
        \<longrightarrow> (\<forall>c\<in>set cs. (\<forall>hh. snd (ImageInspectWithRaw cli hh (c_ImageID c)) = None) \<longrightarrow>
               (\<exists>hh opts.
                  Call_ImagePull (imageWithTag (fst (resolveDigest cli c hh)) ''latest'') opts
                  \<in> set (snd (snd (checkContainers parse cli fl [] user pass registryTag
                                      url h))))))
    \<and> (ContainerList cli h True (if labelEnable fl then Some enableLabel else None) = Inr cs
        \<and> checkContainers_main_go cli fuel fl [] user pass url h = Some (r, u, h')
        \<longrightarrow> (\<forall>c\<in>set cs. (\<forall>hh. snd (ImageInspectWithRaw cli hh (c_ImageID c)) = None) \<longrightarrow>
               (\<exists>opts. Call_ImagePull (c_Image c) opts \<in> set h')))
    \<and> (c_Names c0 \<noteq> []
        \<and> snd (ImageInspectWithRaw cli (snd (resolveDigest cli c0 h)) (c_ImageID c0)) = Some e
        \<longrightarrow> containersLoop parse cli fl registryTag a url (c0 # rest) u0 h
              = containersLoop parse cli fl registryTag a url rest u0
                  (snd (resolveDigest cli c0 h) @ [Call_ImageInspectWithRaw (c_ImageID c0)])
            \<and> pulledImages
                (snd (resolveDigest cli c0 h) @ [Call_ImageInspectWithRaw (c_ImageID c0)])
              = pulledImages h)
    \<and> (c_Names c0 \<noteq> [] \<and> snd (ImageInspectWithRaw cli h (c_ImageID c0)) = Some e
        \<longrightarrow> containersLoop_main_go cli fuel fl [] a url (c0 # rest) u0 h
              = containersLoop_main_go cli fuel fl [] a url rest u0
                  (h @ [Call_ImageInspectWithRaw (c_ImageID c0)]))"
proof -
  have readme: "\<forall>c\<in>set cs. (\<forall>hh. snd (ImageInspectWithRaw cli hh (c_ImageID c)) = None) \<longrightarrow>
               (\<exists>hh opts.
                  Call_ImagePull (imageWithTag (fst (resolveDigest cli c hh)) ''latest'') opts
                  \<in> set (snd (snd (checkContainers parse cli fl [] user pass registryTag
                                      url h))))"
    if list: "ContainerList cli h True
          (if labelEnable fl then Some (enableLabel @ ''=true'') else None) = Inr cs"
  proof (cases cs)
    case Nil
    then show ?thesis by simp
  next
    case (Cons c' cs')
    let ?filt = "if labelEnable fl then Some (enableLabel @ ''=true'') else None"
    obtain k h2 where el: "eligibleContainers cli [] user cs 0
        (h @ [Call_ContainerList True ?filt]) = (k, h2)"
      by (cases "eligibleContainers cli [] user cs 0 (h @ [Call_ContainerList True ?filt])")
    have "k = length cs"
      using eligibleContainers_all [of cli user cs 0 "h @ [Call_ContainerList True ?filt]"] el
      by simp
    with Cons have k: "k \<noteq> 0" by simp
    obtain r1 u1 h3 where lp: "containersLoop parse cli fl registryTag
        (authConfigOf [] user pass) url cs 0 h2 = (r1, u1, h3)"
      by (cases "containersLoop parse cli fl registryTag (authConfigOf [] user pass) url cs 0 h2")
         auto
    have "snd (snd (checkContainers parse cli fl [] user pass registryTag url h)) = h3"
      using list el k lp by (cases r1) (simp_all add: checkContainers_def Let_def)
    with containersLoop_pulls [OF names lp] show ?thesis by simp
  qed
  have main_go: "\<forall>c\<in>set cs. (\<forall>hh. snd (ImageInspectWithRaw cli hh (c_ImageID c)) = None) \<longrightarrow>
               (\<exists>opts. Call_ImagePull (c_Image c) opts \<in> set h')"
    if list: "ContainerList cli h True (if labelEnable fl then Some enableLabel else None) = Inr cs"
      and run: "checkContainers_main_go cli fuel fl [] user pass url h = Some (r, u, h')"
  proof (cases cs)
    case Nil
    then show ?thesis by simp
  next
    case (Cons c' cs')
    let ?filt = "if labelEnable fl then Some enableLabel else None"
    let ?a = "\<lparr>auth_Username = user, auth_Password = pass, auth_ServerAddress = []\<rparr>"
    have "eligibleContainers_main_go [] cs 0 = length cs"
      by (simp add: eligibleContainers_main_go_all)
    with Cons have "eligibleContainers_main_go [] cs 0 \<noteq> 0" by simp
    with run list obtain r1 where lp: "containersLoop_main_go cli fuel fl [] ?a url
        cs 0 (h @ [Call_ContainerList True ?filt]) = Some (r1, u, h')"
      by (auto simp add: checkContainers_main_go_def Let_def
          split: option.splits outcome.splits)
    from containersLoop_main_go_pulls [OF names lp] show ?thesis .
  qed
  have failed: "containersLoop parse cli fl registryTag a url (c0 # rest) u0 h
              = containersLoop parse cli fl registryTag a url rest u0
                  (snd (resolveDigest cli c0 h) @ [Call_ImageInspectWithRaw (c_ImageID c0)])
            \<and> pulledImages
                (snd (resolveDigest cli c0 h) @ [Call_ImageInspectWithRaw (c_ImageID c0)])
              = pulledImages h"
    if "c_Names c0 \<noteq> []"
      and "snd (ImageInspectWithRaw cli (snd (resolveDigest cli c0 h)) (c_ImageID c0)) = Some e"
    using containersLoop_inspection_failed [OF that] by simp
  have failed_main_go: "containersLoop_main_go cli fuel fl [] a url (c0 # rest) u0 h
              = containersLoop_main_go cli fuel fl [] a url rest u0
                  (h @ [Call_ImageInspectWithRaw (c_ImageID c0)])"
    if "c_Names c0 \<noteq> []" and "snd (ImageInspectWithRaw cli h (c_ImageID c0)) = Some e"
    using that by (rule containersLoop_main_go_inspection_failed)
  have counts: "fst (eligibleContainers cli [] user cs 0 h0) = length cs
      \<and> eligibleContainers_main_go [] cs 0 = length cs"
    by (simp add: eligibleContainers_all eligibleContainers_main_go_all)
  from counts readme main_go failed failed_main_go show ?thesis by blast
qed

theorem C10_witness:
  "fst (eligibleContainers (ex_cli_with [ex_gone, ex_app]) [] ''bob'' [ex_gone, ex_app] 0 []) = 2
   \<and> eligibleContainers_main_go [] [ex_gone, ex_app] 0 = 2
   \<and> snd (ImageInspectWithRaw (ex_cli_with [ex_gone, ex_app]) [Call_ContainerList True None]
            (c_ImageID ex_gone)) = Some ''No such image: sha256:g1''
   \<and> (\<exists>hh opts.
         Call_ImagePull
           (imageWithTag (fst (resolveDigest (ex_cli_with [ex_gone, ex_app]) ex_app hh)) ''latest'')
           opts
         \<in> set (snd (snd (checkContainers ex_parse (ex_cli_with [ex_gone, ex_app]) (ex_flags False)
                            [] ''bob'' ''pw'' [] [] []))))
   \<and> (\<exists>opts. Call_ImagePull ''registry.example.com/app:latest'' opts
         \<in> set (snd (snd (the (checkContainers_main_go (ex_cli_with [ex_gone, ex_app]) 1
                                  (ex_flags False) [] ''bob'' ''pw'' [] [])))))
   \<and> containersLoop ex_parse (ex_cli_with [ex_gone, ex_app]) (ex_flags False) []
         (authConfigOf [] ''bob'' ''pw'') [] [ex_gone, ex_app] 0 [Call_ContainerList True None]
       = containersLoop ex_parse (ex_cli_with [ex_gone, ex_app]) (ex_flags False) []
           (authConfigOf [] ''bob'' ''pw'') [] [ex_app] 0
           [Call_ContainerList True None, Call_ImageInspectWithRaw ''sha256:g1'']
   \<and> pulledImages (snd (snd (checkContainers ex_parse (ex_cli_with [ex_gone, ex_app])
         (ex_flags False) [] ''bob'' ''pw'' [] [] [])))
       = [''registry.example.com/app:latest'']"
proof -
  let ?cli = "ex_cli_with [ex_gone, ex_app]"
  let ?M = "checkContainers_main_go ?cli 1 (ex_flags False) [] ''bob'' ''pw'' [] []"
  let ?H = "[Call_ContainerList True None]"
  have names: "\<forall>c\<in>set [ex_gone, ex_app]. c_Names c \<noteq> []"
    by (simp add: ex_app_def ex_gone_def)
  have good: "\<forall>hh. snd (ImageInspectWithRaw ?cli hh (c_ImageID ex_app)) = None"
    by (simp add: ex_app_def ex_cli_with_def ex_cli_def ex_images_def)
  have bad: "snd (ImageInspectWithRaw ?cli ?H (c_ImageID ex_gone))
      = Some ''No such image: sha256:g1''"
    by (simp add: ex_gone_def ex_cli_with_def ex_cli_def ex_images_def)
  have rd: "resolveDigest ?cli ex_gone ?H = (c_Image ex_gone, ?H)"
    by (simp add: resolveDigest_def ex_gone_def strings_HasPrefix_def)
  have gid: "c_ImageID ex_gone = ''sha256:g1''" "c_Names ex_gone \<noteq> []"
    by (simp_all add: ex_gone_def)
  have list: "\<And>hh f. ContainerList ?cli hh True f = Inr [ex_gone, ex_app]"
    by (simp add: ex_cli_with_def ex_cli_def)
  have some: "?M \<noteq> None" by code_simp
  then obtain r u h' where m: "?M = Some (r, u, h')" by (cases ?M) auto
  have pulled: "pulledImages (snd (snd (checkContainers ex_parse ?cli (ex_flags False)
        [] ''bob'' ''pw'' [] [] []))) = [''registry.example.com/app:latest'']"
    by code_simp
  note t = C10_empty_registry_url [OF names, of ?cli "''bob''" "[]" "[]" "ex_flags False"
      ex_parse "''pw''" "[]" "[]" 1 r u h']
  from t have counts: "fst (eligibleContainers ?cli [] ''bob'' [ex_gone, ex_app] 0 []) = 2"
    "eligibleContainers_main_go [] [ex_gone, ex_app] 0 = 2"
    by simp_all
  from t list good have readme: "\<exists>hh opts.
      Call_ImagePull (imageWithTag (fst (resolveDigest ?cli ex_app hh)) ''latest'') opts
      \<in> set (snd (snd (checkContainers ex_parse ?cli (ex_flags False)
                         [] ''bob'' ''pw'' [] [] [])))"
    by simp
  from t list m good have "\<exists>opts. Call_ImagePull (c_Image ex_app) opts \<in> set h'"
    by simp
  with m have main_go: "\<exists>opts. Call_ImagePull ''registry.example.com/app:latest'' opts
      \<in> set (snd (snd (the ?M)))"
    by (simp add: ex_app_def)
  note t2 = C10_empty_registry_url [OF names, of ?cli "''bob''" "[]" ?H "ex_flags False"
      ex_parse "''pw''" "[]" "[]" 1 r u h' ex_gone "''No such image: sha256:g1''"
      "authConfigOf [] ''bob'' ''pw''" "[ex_app]" 0]
  from t2 bad rd gid
  have step: "containersLoop ex_parse ?cli (ex_flags False) []
         (authConfigOf [] ''bob'' ''pw'') [] [ex_gone, ex_app] 0 ?H
       = containersLoop ex_parse ?cli (ex_flags False) []
           (authConfigOf [] ''bob'' ''pw'') [] [ex_app] 0
           [Call_ContainerList True None, Call_ImageInspectWithRaw ''sha256:g1'']"
    by simp
  from counts bad readme main_go step pulled show ?thesis by (simp add: gid)
qed

theorem C10_counterexample:
  "fst (eligibleContainers (ex_cli_with [ex_gone]) [] ''bob'' [ex_gone] 0 []) = 1
   \<and> fst (ImageInspectWithRaw (ex_cli_with [ex_gone]) [] (c_ImageID ex_gone))
       = \<lparr>img_ID = [], img_RepoTags = [], img_Created = [], img_Os = [], img_Architecture = []\<rparr>
   \<and> snd (ImageInspectWithRaw (ex_cli_with [ex_gone]) [] (c_ImageID ex_gone))
       = Some ''No such image: sha256:g1''
   \<and> checkContainers ex_parse (ex_cli_with [ex_gone]) (ex_flags False) [] ''bob'' ''pw'' [] [] []
       = (Return None, 0, [Call_ContainerList True None, Call_ImageInspectWithRaw ''sha256:g1''])
   \<and> checkContainers_main_go (ex_cli_with [ex_gone]) 1 (ex_flags False) [] ''bob'' ''pw'' [] []
       = Some (Return None, 0,
               [Call_ContainerList True None, Call_ImageInspectWithRaw ''sha256:g1''])"
  by code_simp

end
